theory Spec2Isabelle
  imports Complex_Main "HOL-Library.Multiset"
begin

section \<open>Data model (types.ts)\<close>

text \<open>
  A JavaScript number is a binary64 value; the model writes it as the real it denotes, and
  a real that is not a binary64 value stands for the one nearest to it, as a decimal
  literal does. Sums, differences, products and halvings of coordinates are computed
  exactly. The quotient of the cycle-time conversion, whose binary rounding decides the
  stored value, is rounded to binary64 (\<open>jsDivide\<close>). NaN and the infinities are
  outside the model.
\<close>

datatype NodeType = START | TASK | GATEWAY | END

record Metrics =
  cycleTime :: "real option"
  cost :: "real option"
  errorRate :: "real option"
  waitingTime :: "real option"
  changeoverTime :: "real option"
  uptime :: "real option"
  resourceCost :: "real option"

record ProcessNode =
  pn_id :: string
  pn_type :: NodeType
  pn_label :: string
  pn_x :: real
  pn_y :: real
  pn_metrics :: "Metrics option"

record ProcessEdge =
  pe_id :: string
  pe_source :: string
  pe_target :: string
  pe_label :: "string option"

record ProcessMap =
  pm_nodes :: "ProcessNode list"
  pm_edges :: "ProcessEdge list"

datatype VSMRole =
  Supplier | Customer | Process | Inventory | ProductionControl | Transport | Kaizen

record StepData =
  sd_cycleTime :: real
  sd_changeoverTime :: real
  sd_uptime :: real
  sd_inventoryCount :: "real option"
  sd_leadTime :: "real option"

text \<open>
  The interface declares \<open>data\<close> as required, but every reader of it guards with
  \<open>step.data?.\<close>, so the field is optional here.
\<close>

record VSMStep =
  vs_id :: string
  vs_name :: string
  vs_role :: VSMRole
  vs_x :: real
  vs_y :: real
  vs_data :: "StepData option"

text \<open>
  The four connector types of the interface, and \<open>'transport'\<close>, which
  \<open>convertSipocToVsm\<close> writes into its untyped connector array.
\<close>

datatype ConnectorType = Electronic | Manual | Push | Pull | TransportArrow

record VSMConnector =
  vc_id :: string
  vc_source :: string
  vc_target :: string
  vc_type :: ConnectorType

record VSMData =
  vsm_steps :: "VSMStep list"
  vsm_connectors :: "VSMConnector list"
  totalLeadTime :: real
  totalProcessTime :: real
  efficiency :: real
  customerDemand :: "real option"
  availableTime :: "real option"

section \<open>Number helpers\<close>

text \<open>\<open>Math.round\<close>: the nearest integer, a tie going up.\<close>

definition Math_round :: "real \<Rightarrow> real" where
  "Math_round v = of_int \<lfloor>v + 1 / 2\<rfloor>"

text \<open>
  Rounding a real to binary64, to nearest with ties to even. \<open>toMantissa\<close> scales the
  magnitude by powers of two until it lies in \<open>[2^52, 2^53)\<close>, keeping the unit of
  the last place in \<open>u\<close>; the unit stops at \<open>2^-1074\<close>, where the subnormal
  numbers begin. The fuel covers the whole exponent range.
\<close>

definition roundEven :: "real \<Rightarrow> int" where
  "roundEven v =
     (let f = \<lfloor>v\<rfloor>; r = v - of_int f in
      if r < 1 / 2 then f else if 1 / 2 < r then f + 1 else if even f then f else f + 1)"

fun toMantissa :: "nat \<Rightarrow> real \<Rightarrow> real \<Rightarrow> real \<times> real" where
  "toMantissa fuel m u =
     (if fuel = 0 then (m, u)
      else if 2 ^ 53 \<le> m then toMantissa (fuel - 1) (m / 2) (u * 2)
      else if m < 2 ^ 52 \<and> 1 / 2 ^ 1074 < u then toMantissa (fuel - 1) (m * 2) (u / 2)
      else (m, u))"

declare toMantissa.simps [simp del]

definition round64 :: "real \<Rightarrow> real" where
  "round64 v = (if v = 0 then 0
     else case toMantissa 2200 \<bar>v\<bar> 1 of (m, u) \<Rightarrow> sgn v * (of_int (roundEven m) * u))"

text \<open>\<open>a / b\<close> on numbers: the binary64 value nearest to the quotient of the two
  binary64 operands.\<close>

definition jsDivide :: "real \<Rightarrow> real \<Rightarrow> real" where
  "jsDivide a b = round64 (round64 a / round64 b)"

text \<open>
  \<open>Number(v.toFixed(2))\<close>: the sign is split off, the magnitude is taken to the nearest
  hundredth with a tie going to the larger magnitude, and the decimal string is read back.
\<close>

definition toFixed2 :: "real \<Rightarrow> real" where
  "toFixed2 v = (if v < 0 then - (of_int \<lfloor>(- v) * 100 + 1 / 2\<rfloor> / 100)
                 else of_int \<lfloor>v * 100 + 1 / 2\<rfloor> / 100)"

section \<open>Value-stream to execution-flow lift (convertVsmToBpmn)\<close>

definition zeroMetrics :: Metrics where
  "zeroMetrics = \<lparr> cycleTime = Some 0, cost = Some 0, errorRate = None,
     waitingTime = Some 0, changeoverTime = Some 0, uptime = Some 100,
     resourceCost = None \<rparr>"

text \<open>The three metric transfers of the loop body.\<close>

definition cycleTimeMin :: "VSMStep \<Rightarrow> real" where
  "cycleTimeMin step = (case vs_data step of
       None \<Rightarrow> 0
     | Some d \<Rightarrow>
         if sd_cycleTime d \<noteq> 0 then toFixed2 (jsDivide (sd_cycleTime d) 60) else 0)"

definition stepChangeover :: "VSMStep \<Rightarrow> real" where
  "stepChangeover step = (case vs_data step of None \<Rightarrow> 0 | Some d \<Rightarrow> sd_changeoverTime d)"

definition stepUptime :: "VSMStep \<Rightarrow> real" where
  "stepUptime step = (case vs_data step of None \<Rightarrow> 100 | Some d \<Rightarrow> sd_uptime d)"

definition taskNode :: "VSMStep \<Rightarrow> real \<Rightarrow> ProcessNode" where
  "taskNode step xOffset = \<lparr> pn_id = ''Task_'' @ vs_id step, pn_type = TASK,
     pn_label = vs_name step, pn_x = xOffset, pn_y = 250,
     pn_metrics = Some \<lparr> cycleTime = Some (cycleTimeMin step), cost = Some 0,
       errorRate = None, waitingTime = Some 0,
       changeoverTime = Some (stepChangeover step), uptime = Some (stepUptime step),
       resourceCost = None \<rparr> \<rparr>"

definition flowEdge :: "string \<Rightarrow> string \<Rightarrow> ProcessEdge" where
  "flowEdge src tgt = \<lparr> pe_id = ''Flow_'' @ src @ ''_'' @ tgt, pe_source = src,
     pe_target = tgt, pe_label = None \<rparr>"

text \<open>
  The state the \<open>forEach\<close> callback updates: the two output arrays,
  \<open>previousNodeId\<close> and \<open>xOffset\<close>.
\<close>

record LiftState =
  ls_nodes :: "ProcessNode list"
  ls_edges :: "ProcessEdge list"
  ls_previousNodeId :: string
  ls_xOffset :: real

definition liftStep :: "VSMStep \<Rightarrow> LiftState \<Rightarrow> LiftState" where
  "liftStep step st =
     (let node = taskNode step (ls_xOffset st) in
      \<lparr> ls_nodes = ls_nodes st @ [node],
        ls_edges = ls_edges st @ [flowEdge (ls_previousNodeId st) (pn_id node)],
        ls_previousNodeId = pn_id node,
        ls_xOffset = ls_xOffset st + 180 \<rparr>)"

text \<open>
  \<open>vsm.steps.filter(s => s.role === 'process').sort((a, b) => a.x - b.x)\<close>; the
  engine's sort is stable, as insertion by key is.
\<close>

text \<open>What the loop appends, in closed form: the tasks at 180-unit steps and the
  edges that link each node id to the next.\<close>

fun taskNodes :: "VSMStep list \<Rightarrow> real \<Rightarrow> ProcessNode list" where
  "taskNodes [] xOffset = []"
| "taskNodes (step # rest) xOffset = taskNode step xOffset # taskNodes rest (xOffset + 180)"

fun chainEdges :: "string \<Rightarrow> string list \<Rightarrow> ProcessEdge list" where
  "chainEdges prev [] = []"
| "chainEdges prev (i # ids) = flowEdge prev i # chainEdges i ids"

definition processSteps :: "VSMData \<Rightarrow> VSMStep list" where
  "processSteps vsm = sort_key vs_x (filter (\<lambda>s. vs_role s = Process) (vsm_steps vsm))"

definition startNode :: ProcessNode where
  "startNode = \<lparr> pn_id = ''StartEvent_1'', pn_type = START, pn_label = ''Process Start'',
     pn_x = 150, pn_y = 250, pn_metrics = Some zeroMetrics \<rparr>"

definition endNode :: "real \<Rightarrow> ProcessNode" where
  "endNode xOffset = \<lparr> pn_id = ''EndEvent_1'', pn_type = END, pn_label = ''Process End'',
     pn_x = xOffset, pn_y = 250, pn_metrics = Some zeroMetrics \<rparr>"

definition convertVsmToBpmn :: "VSMData \<Rightarrow> ProcessMap" where
  "convertVsmToBpmn vsm =
     (let st0 = \<lparr> ls_nodes = [startNode], ls_edges = [],
                  ls_previousNodeId = pn_id startNode, ls_xOffset = 150 + 150 \<rparr>;
          st = fold liftStep (processSteps vsm) st0
      in \<lparr> pm_nodes = ls_nodes st @ [endNode (ls_xOffset st)],
           pm_edges = ls_edges st @ [flowEdge (ls_previousNodeId st) ''EndEvent_1''] \<rparr>)"

section \<open>Wire-format export (jsonToBpmnXml)\<close>

text \<open>
  The function builds one XML string from template literals. The model keeps the document
  as the sequence of elements the templates write, in the order they are written; each
  string attribute holds exactly the characters interpolated between its quotes, and each
  number stays a number. \<open>flowElementXml\<close> gives the text of a process element.
\<close>

datatype FlowElement =
    StartEvent string string
  | EndEvent string string
  | ExclusiveGateway string string
  | TaskElement string string
  | SequenceFlow string string string "string option"

record BPMNShape =
  sh_id :: string
  sh_bpmnElement :: string
  sh_x :: real
  sh_y :: real
  sh_width :: real
  sh_height :: real

record BPMNEdge =
  de_id :: string
  de_bpmnElement :: string
  de_waypoints :: "(real \<times> real) list"
  de_label :: bool

record BpmnXml =
  bx_processId :: string
  bx_flowElements :: "FlowElement list"
  bx_shapes :: "BPMNShape list"
  bx_edges :: "BPMNEdge list"

text \<open>\<open>s.replace(/c/g, rep)\<close> for a single character \<open>c\<close>.\<close>

definition replaceAll :: "char \<Rightarrow> string \<Rightarrow> string \<Rightarrow> string" where
  "replaceAll c rep s = concat (map (\<lambda>ch. if ch = c then rep else [ch]) s)"

definition sanitizedLabel :: "string \<Rightarrow> string" where
  "sanitizedLabel label =
     replaceAll (CHR ''>'') ''&gt;'' (replaceAll (CHR ''<'') ''&lt;''
       (replaceAll (CHR ''&'') ''&amp;'' label))"

definition nodeElement :: "ProcessNode \<Rightarrow> FlowElement" where
  "nodeElement node =
     (if pn_type node = START then StartEvent (pn_id node) (sanitizedLabel (pn_label node))
      else if pn_type node = END then EndEvent (pn_id node) (sanitizedLabel (pn_label node))
      else if pn_type node = GATEWAY
        then ExclusiveGateway (pn_id node) (sanitizedLabel (pn_label node))
      else TaskElement (pn_id node) (sanitizedLabel (pn_label node)))"

text \<open>\<open>edge.label ? ... : ''\<close>: an absent or empty label is falsy.\<close>

definition nameAttr :: "ProcessEdge \<Rightarrow> string option" where
  "nameAttr edge = (case pe_label edge of
       None \<Rightarrow> None
     | Some l \<Rightarrow> if l = [] then None else Some (replaceAll (CHR 0x22) ''&quot;'' l))"

definition nodeExists :: "ProcessNode list \<Rightarrow> string \<Rightarrow> bool" where
  "nodeExists nodes i = list_ex (\<lambda>n. pn_id n = i) nodes"

definition sequenceFlow :: "ProcessNode list \<Rightarrow> ProcessEdge \<Rightarrow> FlowElement list" where
  "sequenceFlow nodes edge =
     (if nodeExists nodes (pe_source edge) \<and> nodeExists nodes (pe_target edge)
      then [SequenceFlow (pe_id edge) (pe_source edge) (pe_target edge) (nameAttr edge)]
      else [])"

definition getNodeDim :: "NodeType \<Rightarrow> real \<times> real" where
  "getNodeDim t = (if t = START \<or> t = END then (36, 36)
                   else if t = GATEWAY then (50, 50) else (100, 80))"

definition nodeShape :: "ProcessNode \<Rightarrow> BPMNShape" where
  "nodeShape node = (case getNodeDim (pn_type node) of (w, h) \<Rightarrow>
     \<lparr> sh_id = pn_id node @ ''_di'', sh_bpmnElement = pn_id node,
       sh_x = pn_x node, sh_y = pn_y node, sh_width = w, sh_height = h \<rparr>)"

definition edgeWaypoints :: "ProcessNode \<Rightarrow> ProcessNode \<Rightarrow> (real \<times> real) list" where
  "edgeWaypoints source target =
     (let sDim = getNodeDim (pn_type source);
          tDim = getNodeDim (pn_type target);
          sx = pn_x source + fst sDim;
          sy = pn_y source + snd sDim / 2;
          tx = pn_x target;
          ty = pn_y target + snd tDim / 2
      in [(sx, sy)]
         @ (if \<bar>sy - ty\<bar> > 10
            then (let midX = sx + (tx - sx) / 2 in [(midX, sy), (midX, ty)])
            else [])
         @ [(tx, ty)])"

definition edgeShape :: "ProcessNode list \<Rightarrow> ProcessEdge \<Rightarrow> BPMNEdge list" where
  "edgeShape nodes edge =
     (case (find (\<lambda>n. pn_id n = pe_source edge) nodes,
            find (\<lambda>n. pn_id n = pe_target edge) nodes) of
        (Some source, Some target) \<Rightarrow>
          [\<lparr> de_id = pe_id edge @ ''_di'', de_bpmnElement = pe_id edge,
             de_waypoints = edgeWaypoints source target,
             de_label = (case pe_label edge of None \<Rightarrow> False | Some l \<Rightarrow> l \<noteq> []) \<rparr>]
      | _ \<Rightarrow> [])"

text \<open>
  \<open>crypto.randomUUID()\<close> is an input of the model: \<open>uuid\<close> is the string it
  returns.
\<close>

definition jsonToBpmnXml :: "string \<Rightarrow> ProcessMap \<Rightarrow> BpmnXml" where
  "jsonToBpmnXml uuid data =
     \<lparr> bx_processId = ''Process_'' @ take 7 (filter (\<lambda>c. c \<noteq> CHR ''-'') uuid),
       bx_flowElements = map nodeElement (pm_nodes data)
          @ concat (map (sequenceFlow (pm_nodes data)) (pm_edges data)),
       bx_shapes = map nodeShape (pm_nodes data),
       bx_edges = concat (map (edgeShape (pm_nodes data)) (pm_edges data)) \<rparr>"

text \<open>The line each process element is written as.\<close>

definition quoted :: "string \<Rightarrow> string" where
  "quoted s = [CHR 0x22] @ s @ [CHR 0x22]"

fun flowElementXml :: "FlowElement \<Rightarrow> string" where
  "flowElementXml (StartEvent i n) =
     ''<bpmn:startEvent id='' @ quoted i @ '' name='' @ quoted n @ '' />''"
| "flowElementXml (EndEvent i n) =
     ''<bpmn:endEvent id='' @ quoted i @ '' name='' @ quoted n @ '' />''"
| "flowElementXml (ExclusiveGateway i n) =
     ''<bpmn:exclusiveGateway id='' @ quoted i @ '' name='' @ quoted n @ '' />''"
| "flowElementXml (TaskElement i n) =
     ''<bpmn:task id='' @ quoted i @ '' name='' @ quoted n @ '' />''"
| "flowElementXml (SequenceFlow i s t a) =
     ''<bpmn:sequenceFlow id='' @ quoted i @ '' sourceRef='' @ quoted s
       @ '' targetRef='' @ quoted t
       @ (case a of None \<Rightarrow> [] | Some n \<Rightarrow> '' name='' @ quoted n) @ '' />''"

section \<open>Case-graph data (types.ts)\<close>

datatype CMMNNodeType = CMMN_STAGE | CMMN_TASK | CMMN_MILESTONE | CMMN_EVENT_LISTENER

datatype CMMNEdgeType = Association | Dependency

record CMMNNode =
  cn_id :: string
  cn_type :: CMMNNodeType
  cn_label :: string
  cn_x :: real
  cn_y :: real
  cn_width :: "real option"
  cn_height :: "real option"

record CMMNEdge =
  ce_id :: string
  ce_source :: string
  ce_target :: string
  ce_type :: CMMNEdgeType

record CMMNModel =
  cm_nodes :: "CMMNNode list"
  cm_edges :: "CMMNEdge list"

section \<open>Editor state (VSMEditor.tsx, CMMNEditor.tsx)\<close>

record ViewState =
  view_x :: real
  view_y :: real
  view_scale :: real

text \<open>
  The hooks of a component, with the diagram the parent passes in (\<open>onUpdate\<close> replaces
  it). \<open>svgRect\<close> is the left and top of \<open>svgRef.current\<close>'s bounding rectangle and
  \<open>container\<close> the client width and height of \<open>containerRef.current\<close>; a null ref is
  \<open>None\<close>. Both editors keep the same hooks, so one record serves both, with the
  diagram type as parameter.
\<close>

record 'd Editor =
  viewState :: ViewState
  isPanning :: bool
  lastMousePos :: "real \<times> real"
  hasPanningMoved :: bool
  draggedId :: "string option"
  dragOffset :: "real \<times> real"
  diagram :: 'd
  svgRect :: "(real \<times> real) option"
  container :: "(real \<times> real) option"

definition GRID_SIZE :: real where
  "GRID_SIZE = 10"

definition LADDER_Y :: real where
  "LADDER_Y = 600"

definition toLocalCoordinates :: "'d Editor \<Rightarrow> real \<times> real \<Rightarrow> real \<times> real" where
  "toLocalCoordinates ed client = (case svgRect ed of
       None \<Rightarrow> (0, 0)
     | Some (rectLeft, rectTop) \<Rightarrow>
         ((fst client - rectLeft - view_x (viewState ed)) / view_scale (viewState ed),
          (snd client - rectTop - view_y (viewState ed)) / view_scale (viewState ed)))"

text \<open>The two lines that compute \<open>snappedX\<close> and \<open>snappedY\<close>.\<close>

definition snapped :: "'d Editor \<Rightarrow> real \<times> real \<Rightarrow> real \<times> real" where
  "snapped ed client =
     (let local = toLocalCoordinates ed client in
      (Math_round ((fst local - fst (dragOffset ed)) / GRID_SIZE) * GRID_SIZE,
       Math_round ((snd local - snd (dragOffset ed)) / GRID_SIZE) * GRID_SIZE))"

text \<open>A string id is truthy when it is neither null nor empty.\<close>

definition truthyId :: "string option \<Rightarrow> bool" where
  "truthyId i = (case i of None \<Rightarrow> False | Some s \<Rightarrow> s \<noteq> [])"

definition panMove :: "'d Editor \<Rightarrow> real \<times> real \<Rightarrow> 'd Editor" where
  "panMove ed client =
     ed \<lparr> hasPanningMoved := True,
          viewState := (viewState ed) \<lparr>
            view_x := view_x (viewState ed) + (fst client - fst (lastMousePos ed)),
            view_y := view_y (viewState ed) + (snd client - snd (lastMousePos ed)) \<rparr>,
          lastMousePos := client \<rparr>"

definition vsm_handleMouseMove :: "VSMData Editor \<Rightarrow> real \<times> real \<Rightarrow> VSMData Editor" where
  "vsm_handleMouseMove ed client =
     (if isPanning ed then panMove ed client
      else if truthyId (draggedId ed) then
        ed \<lparr> diagram := (diagram ed) \<lparr> vsm_steps :=
          map (\<lambda>s. if Some (vs_id s) = draggedId ed
                    then s \<lparr> vs_x := fst (snapped ed client), vs_y := snd (snapped ed client) \<rparr>
                    else s)
              (vsm_steps (diagram ed)) \<rparr> \<rparr>
      else ed)"

definition cmmn_handleMouseMove :: "CMMNModel Editor \<Rightarrow> real \<times> real \<Rightarrow> CMMNModel Editor" where
  "cmmn_handleMouseMove ed client =
     (if isPanning ed then panMove ed client
      else if truthyId (draggedId ed) then
        ed \<lparr> diagram := (diagram ed) \<lparr> cm_nodes :=
          map (\<lambda>n. if Some (cn_id n) = draggedId ed
                    then n \<lparr> cn_x := fst (snapped ed client), cn_y := snd (snapped ed client) \<rparr>
                    else n)
              (cm_nodes (diagram ed)) \<rparr> \<rparr>
      else ed)"

text \<open>Both editors end a gesture with the same two setters.\<close>

definition handleMouseUp :: "'d Editor \<Rightarrow> 'd Editor" where
  "handleMouseUp ed = ed \<lparr> isPanning := False, draggedId := None \<rparr>"

subsection \<open>Fit to content\<close>

text \<open>\<open>Math.min(...xs)\<close> and \<open>Math.max(...xs)\<close> on a list with a first element.\<close>

definition minOf :: "real \<Rightarrow> real list \<Rightarrow> real" where
  "minOf v vs = fold min vs v"

definition maxOf :: "real \<Rightarrow> real list \<Rightarrow> real" where
  "maxOf v vs = fold max vs v"

definition vsm_handleFitView :: "VSMData Editor \<Rightarrow> VSMData Editor" where
  "vsm_handleFitView ed = (case vsm_steps (diagram ed) of
       [] \<Rightarrow> ed \<lparr> viewState := \<lparr> view_x = 0, view_y = 0, view_scale = 1 \<rparr> \<rparr>
     | s # ss \<Rightarrow>
        (let padding = 50;
             minX = minOf (vs_x s) (map vs_x ss);
             maxX = maxOf (vs_x s) (map vs_x ss);
             minY = minOf (vs_y s) (map vs_y ss);
             maxY = maxOf (vs_y s) (map vs_y ss @ [LADDER_Y + 100]);
             width = maxX - minX + 200;
             height = maxY - minY + 200
         in case container ed of
              None \<Rightarrow> ed
            | Some (clientWidth, clientHeight) \<Rightarrow>
               (let scaleX = clientWidth / (width + padding * 2);
                    scaleY = clientHeight / (height + padding * 2);
                    scale = min scaleX (min scaleY 1)
                in ed \<lparr> viewState :=
                     \<lparr> view_x = (clientWidth - width * scale) / 2 - minX * scale + 50,
                       view_y = (clientHeight - height * scale) / 2 - minY * scale + 50,
                       view_scale = scale \<rparr> \<rparr>)))"

text \<open>\<open>n.width || 120\<close>: an absent or zero number is falsy.\<close>

definition orElse :: "real option \<Rightarrow> real \<Rightarrow> real" where
  "orElse v d = (case v of None \<Rightarrow> d | Some r \<Rightarrow> if r = 0 then d else r)"

definition cmmn_handleFitView :: "CMMNModel Editor \<Rightarrow> CMMNModel Editor" where
  "cmmn_handleFitView ed = (case (cm_nodes (diagram ed), container ed) of
       (n # ns, Some (clientWidth, clientHeight)) \<Rightarrow>
        (let right = (\<lambda>n. cn_x n + orElse (cn_width n) 120);
             bottom = (\<lambda>n. cn_y n + orElse (cn_height n) 60);
             minX = minOf (cn_x n) (map cn_x ns);
             maxX = maxOf (right n) (map right ns);
             minY = minOf (cn_y n) (map cn_y ns);
             maxY = maxOf (bottom n) (map bottom ns);
             width = maxX - minX;
             height = maxY - minY;
             scale = min (clientWidth / (width + 200)) (min (clientHeight / (height + 200)) 1)
         in ed \<lparr> viewState :=
              \<lparr> view_x = (clientWidth - width * scale) / 2 - minX * scale,
                view_y = (clientHeight - height * scale) / 2 - minY * scale,
                view_scale = scale \<rparr> \<rparr>)
     | _ \<Rightarrow> ed)"

subsection \<open>Drawing connectors\<close>

definition getSnapRect :: "VSMStep \<Rightarrow> real \<times> real \<times> real \<times> real" where
  "getSnapRect step = (case vs_role step of
       Process \<Rightarrow> (vs_x step, vs_y step, 120, 60)
     | Supplier \<Rightarrow> (vs_x step, vs_y step, 90, 45)
     | Customer \<Rightarrow> (vs_x step, vs_y step, 90, 45)
     | ProductionControl \<Rightarrow> (vs_x step, vs_y step, 120, 40)
     | Inventory \<Rightarrow> (vs_x step, vs_y step, 30, 30)
     | Kaizen \<Rightarrow> (vs_x step, vs_y step, 50, 50)
     | Transport \<Rightarrow> (vs_x step, vs_y step, 40, 40))"

definition getConnectorPoints :: "VSMStep \<Rightarrow> VSMStep \<Rightarrow> (real \<times> real) \<times> (real \<times> real)" where
  "getConnectorPoints source target =
     (case (getSnapRect source, getSnapRect target) of
        ((sX, sY, sW, sH), (tX, tY, tW, tH)) \<Rightarrow>
          (let dx = tX - sX; dy = tY - sY in
           ((if \<bar>dx\<bar> > \<bar>dy\<bar> then ((if dx > 0 then sX + sW / 2 else sX - sW / 2), sY)
             else (sX, (if dy > 0 then sY + sH / 2 else sY - sH / 2))),
            (if \<bar>dx\<bar> > \<bar>dy\<bar> then ((if dx > 0 then tX - tW / 2 else tX + tW / 2), tY)
             else (tX, (if dy > 0 then tY - tH / 2 else tY + tH / 2))))))"

text \<open>
  What a render call hands to React: \<open>None\<close> for \<open>null\<close> (nothing is drawn), else the
  element's key, its two end points and the connector type that picks the stroke. The
  path string and the styling attributes derived from these are left out.
\<close>

record 't Drawn =
  dr_key :: string
  dr_from :: "real \<times> real"
  dr_to :: "real \<times> real"
  dr_type :: 't

definition renderConnector :: "VSMData \<Rightarrow> VSMConnector \<Rightarrow> ConnectorType Drawn option" where
  "renderConnector data conn =
     (case (find (\<lambda>s. vs_id s = vc_source conn) (vsm_steps data),
            find (\<lambda>s. vs_id s = vc_target conn) (vsm_steps data)) of
        (Some source, Some target) \<Rightarrow>
          Some \<lparr> dr_key = vc_id conn, dr_from = fst (getConnectorPoints source target),
                 dr_to = snd (getConnectorPoints source target), dr_type = vc_type conn \<rparr>
      | _ \<Rightarrow> None)"

definition orZero :: "real option \<Rightarrow> real" where
  "orZero v = (case v of None \<Rightarrow> 0 | Some r \<Rightarrow> r)"

definition renderEdge :: "CMMNModel \<Rightarrow> CMMNEdge \<Rightarrow> CMMNEdgeType Drawn option" where
  "renderEdge data edge =
     (case (find (\<lambda>n. cn_id n = ce_source edge) (cm_nodes data),
            find (\<lambda>n. cn_id n = ce_target edge) (cm_nodes data)) of
        (Some s, Some t) \<Rightarrow>
          Some \<lparr> dr_key = ce_id edge,
                 dr_from = (cn_x s + orZero (cn_width s) / 2, cn_y s + orZero (cn_height s) / 2),
                 dr_to = (cn_x t + orZero (cn_width t) / 2, cn_y t + orZero (cn_height t) / 2),
                 dr_type = ce_type edge \<rparr>
      | _ \<Rightarrow> None)"

subsection \<open>The pointer-listener effect\<close>

text \<open>
  \<open>window\<close> is the list of listeners registered on the window object. A listener is
  the \<open>handleMouseMove\<close> callback, identified by the values of its \<open>useCallback\<close>
  dependencies (a change of any of them makes a new function), or the one
  \<open>handleMouseUp\<close> callback, whose dependency list is empty.
\<close>

datatype 'k Listener = MouseMoveHandler 'k | MouseUpHandler

type_synonym 'k Window = "(string \<times> 'k Listener) list"

text \<open>Registering a listener that is already registered for the event does nothing.\<close>

definition addEventListener :: "string \<Rightarrow> 'k Listener \<Rightarrow> 'k Window \<Rightarrow> 'k Window" where
  "addEventListener ev h w = (if (ev, h) \<in> set w then w else w @ [(ev, h)])"

definition removeEventListener :: "string \<Rightarrow> 'k Listener \<Rightarrow> 'k Window \<Rightarrow> 'k Window" where
  "removeEventListener ev h w = remove1 (ev, h) w"

text \<open>The effect's body and the function it returns.\<close>

definition effectSetup :: "'k \<Rightarrow> 'k Window \<Rightarrow> 'k Window" where
  "effectSetup k w =
     addEventListener ''mouseup'' MouseUpHandler
       (addEventListener ''mousemove'' (MouseMoveHandler k) w)"

definition effectCleanup :: "'k \<Rightarrow> 'k Window \<Rightarrow> 'k Window" where
  "effectCleanup k w =
     removeEventListener ''mouseup'' MouseUpHandler
       (removeEventListener ''mousemove'' (MouseMoveHandler k) w)"

text \<open>The dependency lists of the two \<open>handleMouseMove\<close> callbacks.\<close>

definition vsm_deps :: "VSMData Editor \<Rightarrow>
    bool \<times> string option \<times> (real \<times> real) \<times> (real \<times> real) \<times> ViewState \<times> VSMData" where
  "vsm_deps ed =
     (isPanning ed, draggedId ed, lastMousePos ed, dragOffset ed, viewState ed, diagram ed)"

definition cmmn_deps :: "CMMNModel Editor \<Rightarrow>
    bool \<times> string option \<times> (real \<times> real) \<times> (real \<times> real) \<times> real \<times> CMMNNode list" where
  "cmmn_deps ed =
     (isPanning ed, draggedId ed, lastMousePos ed, dragOffset ed, view_scale (viewState ed),
      cm_nodes (diagram ed))"

text \<open>
  How the framework runs an effect with a dependency list: the body after the first
  render; after a later render, the previous cleanup and then the body when a dependency
  changed; the last cleanup when the component is removed. The effect's dependencies are
  the two callbacks, so they change exactly when \<open>deps\<close> of the editor state does.
\<close>

definition mount :: "('e \<Rightarrow> 'k) \<Rightarrow> 'e \<Rightarrow> 'k Window \<Rightarrow> 'k Window" where
  "mount deps ed w = effectSetup (deps ed) w"

definition rerender :: "('e \<Rightarrow> 'k) \<Rightarrow> 'e \<Rightarrow> 'e \<Rightarrow> 'k Window \<Rightarrow> 'k Window" where
  "rerender deps ed ed' w =
     (if deps ed' = deps ed then w else effectSetup (deps ed') (effectCleanup (deps ed) w))"

definition unmount :: "('e \<Rightarrow> 'k) \<Rightarrow> 'e \<Rightarrow> 'k Window \<Rightarrow> 'k Window" where
  "unmount deps ed w = effectCleanup (deps ed) w"

text \<open>A mounted component going through the successive states \<open>eds\<close>.\<close>

fun renders :: "('e \<Rightarrow> 'k) \<Rightarrow> 'e \<Rightarrow> 'e list \<Rightarrow> 'k Window \<Rightarrow> 'e \<times> 'k Window" where
  "renders deps ed [] w = (ed, w)"
| "renders deps ed (ed' # eds) w = renders deps ed' eds (rerender deps ed ed' w)"

section \<open>Scope lifts (convertSipocToVsm, convertSipocToBpmn)\<close>

record SIPOCData =
  suppliers :: "string list"
  inputs :: "string list"
  process :: "string list"
  outputs :: "string list"
  customers :: "string list"

text \<open>
  \<open>crypto.randomUUID()\<close> is an input of the model: \<open>uuid k\<close> is the string the
  \<open>k\<close>-th call of an invocation returns, and the state counts the calls made.
\<close>

text \<open>\<open>xs[0] || d\<close>: the first element unless it is missing or empty.\<close>

definition firstOr :: "string list \<Rightarrow> string \<Rightarrow> string" where
  "firstOr xs d = (case xs of [] \<Rightarrow> d | x # _ \<Rightarrow> if x = [] then d else x)"

definition blankData :: StepData where
  "blankData = \<lparr> sd_cycleTime = 0, sd_changeoverTime = 0, sd_uptime = 100,
     sd_inventoryCount = Some 0, sd_leadTime = Some 0 \<rparr>"

definition mkStep :: "string \<Rightarrow> string \<Rightarrow> VSMRole \<Rightarrow> real \<Rightarrow> real \<Rightarrow> VSMStep" where
  "mkStep i n r px py = \<lparr> vs_id = i, vs_name = n, vs_role = r, vs_x = px, vs_y = py,
     vs_data = Some blankData \<rparr>"

record VsmLoop =
  vl_steps :: "VSMStep list"
  vl_connectors :: "VSMConnector list"
  vl_x :: real
  vl_prevProcessId :: "string option"
  vl_calls :: nat

definition vsmLoopBody :: "(nat \<Rightarrow> string) \<Rightarrow> string \<Rightarrow> VsmLoop \<Rightarrow> VsmLoop" where
  "vsmLoopBody uuid pName st =
     (let pId = uuid (vl_calls st);
          k = vl_calls st + 1;
          steps = vl_steps st @ [mkStep pId pName Process (vl_x st) 400]
      in case vl_prevProcessId st of
           Some prev \<Rightarrow>
             if prev \<noteq> [] then
               \<lparr> vl_steps = steps,
                 vl_connectors = vl_connectors st @
                   [\<lparr> vc_id = uuid k, vc_source = prev, vc_target = pId, vc_type = Push \<rparr>],
                 vl_x = vl_x st + 200, vl_prevProcessId = Some pId, vl_calls = k + 1 \<rparr>
             else
               \<lparr> vl_steps = steps, vl_connectors = vl_connectors st,
                 vl_x = vl_x st + 200, vl_prevProcessId = Some pId, vl_calls = k \<rparr>
         | None \<Rightarrow>
               \<lparr> vl_steps = steps, vl_connectors = vl_connectors st,
                 vl_x = vl_x st + 200, vl_prevProcessId = Some pId, vl_calls = k \<rparr>)"

definition convertSipocToVsm :: "(nat \<Rightarrow> string) \<Rightarrow> SIPOCData \<Rightarrow> VSMData" where
  "convertSipocToVsm uuid sipoc =
     (let supplier = mkStep (uuid 0) (firstOr (suppliers sipoc) ''Supplier'') Supplier 100 100;
          pc = mkStep (uuid 1) ''Production Control'' ProductionControl 450 100;
          processList = (if length (process sipoc) > 0 then process sipoc
                         else [''Process Step 1'']);
          st = fold (vsmLoopBody uuid) processList
                 \<lparr> vl_steps = [supplier, pc], vl_connectors = [], vl_x = 100,
                   vl_prevProcessId = None, vl_calls = 2 \<rparr>;
          customerId = uuid (vl_calls st);
          customer = mkStep customerId (firstOr (customers sipoc) ''Customer'') Customer
                       (max (vl_x st) 800) 100
      in \<lparr> vsm_steps = vl_steps st @ [customer],
           vsm_connectors = vl_connectors st @
             (case vl_prevProcessId st of
                Some prev \<Rightarrow>
                  if prev \<noteq> [] then
                    [\<lparr> vc_id = uuid (vl_calls st + 1), vc_source = prev,
                       vc_target = customerId, vc_type = TransportArrow \<rparr>]
                  else []
              | None \<Rightarrow> []),
           totalLeadTime = 0, totalProcessTime = 0, efficiency = 0,
           customerDemand = Some 100, availableTime = Some 27000 \<rparr>)"

definition sipocMetrics :: Metrics where
  "sipocMetrics = \<lparr> cycleTime = Some 0, cost = None, errorRate = None,
     waitingTime = Some 0, changeoverTime = None, uptime = None, resourceCost = None \<rparr>"

definition sipocNode :: "string \<Rightarrow> NodeType \<Rightarrow> string \<Rightarrow> real \<Rightarrow> ProcessNode" where
  "sipocNode i t l px = \<lparr> pn_id = i, pn_type = t, pn_label = l, pn_x = px, pn_y = 250,
     pn_metrics = Some sipocMetrics \<rparr>"

definition sipocEdge :: "string \<Rightarrow> string \<Rightarrow> ProcessEdge" where
  "sipocEdge src tgt = \<lparr> pe_id = ''Flow_'' @ src @ ''_'' @ tgt, pe_source = src,
     pe_target = tgt, pe_label = Some [] \<rparr>"

record BpmnLoop =
  bl_nodes :: "ProcessNode list"
  bl_edges :: "ProcessEdge list"
  bl_x :: real
  bl_prevId :: string
  bl_calls :: nat

definition bpmnLoopBody :: "(nat \<Rightarrow> string) \<Rightarrow> string \<Rightarrow> BpmnLoop \<Rightarrow> BpmnLoop" where
  "bpmnLoopBody uuid pName st =
     (let tId = ''Task_'' @ take 5 (uuid (bl_calls st)) in
      \<lparr> bl_nodes = bl_nodes st @ [sipocNode tId TASK pName (bl_x st)],
        bl_edges = bl_edges st @ [sipocEdge (bl_prevId st) tId],
        bl_x = bl_x st + 180, bl_prevId = tId, bl_calls = bl_calls st + 1 \<rparr>)"

definition convertSipocToBpmn :: "(nat \<Rightarrow> string) \<Rightarrow> SIPOCData \<Rightarrow> ProcessMap" where
  "convertSipocToBpmn uuid sipoc =
     (let startLabel = (case inputs sipoc of [] \<Rightarrow> ''Start'' | i # _ \<Rightarrow> ''Input: '' @ i);
          processList = (if length (process sipoc) > 0 then process sipoc else [''New Task'']);
          st = fold (bpmnLoopBody uuid) processList
                 \<lparr> bl_nodes = [sipocNode ''StartEvent_SIPOC'' START startLabel 150],
                   bl_edges = [], bl_x = 150 + 180, bl_prevId = ''StartEvent_SIPOC'',
                   bl_calls = 0 \<rparr>;
          endLabel = (case outputs sipoc of [] \<Rightarrow> ''End'' | out # _ \<Rightarrow> ''Output: '' @ out)
      in \<lparr> pm_nodes = bl_nodes st @ [sipocNode ''EndEvent_SIPOC'' END endLabel (bl_x st)],
           pm_edges = bl_edges st @ [sipocEdge (bl_prevId st) ''EndEvent_SIPOC''] \<rparr>)"

text \<open>A diagram without its ids: what two invocations can be compared on.\<close>

definition nodeShapeOf :: "ProcessNode \<Rightarrow> NodeType \<times> string \<times> real \<times> real \<times> Metrics option" where
  "nodeShapeOf n = (pn_type n, pn_label n, pn_x n, pn_y n, pn_metrics n)"

definition stepShapeOf :: "VSMStep \<Rightarrow> string \<times> VSMRole \<times> real \<times> real \<times> StepData option" where
  "stepShapeOf s = (vs_name s, vs_role s, vs_x s, vs_y s, vs_data s)"

text \<open>
  The wiring of a diagram in terms of its own ids: each edge joins a node to the next one
  in the node list and is named after the two, and each connector of a lifted value stream
  joins a step to the next one, the supplier and the production control (the first two
  steps) apart.
\<close>

definition edgeEnds :: "ProcessEdge \<Rightarrow> string \<times> string" where
  "edgeEnds e = (pe_source e, pe_target e)"

definition connectorEnds :: "VSMConnector \<Rightarrow> string \<times> string" where
  "connectorEnds c = (vc_source c, vc_target c)"

definition consecutive :: "string list \<Rightarrow> (string \<times> string) list" where
  "consecutive ids = zip (butlast ids) (tl ids)"

definition flowChain :: "ProcessMap \<Rightarrow> bool" where
  "flowChain pm =
     (map edgeEnds (pm_edges pm) = consecutive (map pn_id (pm_nodes pm))
      \<and> map pe_id (pm_edges pm)
          = map (\<lambda>e. ''Flow_'' @ pe_source e @ ''_'' @ pe_target e) (pm_edges pm))"

definition connectorChain :: "VSMData \<Rightarrow> bool" where
  "connectorChain vsm =
     (map connectorEnds (vsm_connectors vsm)
        = consecutive (drop 2 (map vs_id (vsm_steps vsm))))"

section \<open>Derived project metrics (calculateDynamicMetrics)\<close>

datatype Trend = TrendUp | TrendDown | TrendStable

record MetricData =
  md_name :: string
  md_value :: real
  md_unit :: string
  md_trend :: Trend
  md_delta :: real

text \<open>The two fields of the project data the function reads; both are read through
  \<open>?.\<close>, so both may be absent.\<close>

record ProjectData =
  pd_vsm :: "VSMData option"
  pd_processMap :: "ProcessMap option"

text \<open>\<open>v || d\<close> on a number: zero is falsy.\<close>

definition orNum :: "real \<Rightarrow> real \<Rightarrow> real" where
  "orNum v d = (if v = 0 then d else v)"

definition metric :: "string \<Rightarrow> real \<Rightarrow> string \<Rightarrow> MetricData" where
  "metric n v u = \<lparr> md_name = n, md_value = v, md_unit = u, md_trend = TrendStable,
     md_delta = 0 \<rparr>"

definition vsmMetrics :: "ProjectData \<Rightarrow> MetricData list" where
  "vsmMetrics data = (case pd_vsm data of
       None \<Rightarrow> []
     | Some vsm \<Rightarrow>
         if vsm_steps vsm = [] then []
         else [metric ''Lead Time'' (totalLeadTime vsm) ''days'',
               metric ''Flow Efficiency'' (orNum (efficiency vsm) 0) ''%'']
              @ (case (customerDemand vsm, availableTime vsm) of
                   (Some demand, Some avail) \<Rightarrow>
                     if demand \<noteq> 0 \<and> avail \<noteq> 0
                     then [metric ''Takt Time'' (Math_round (avail / demand)) ''s'']
                     else []
                 | _ \<Rightarrow> []))"

definition metricOr :: "ProcessNode \<Rightarrow> (Metrics \<Rightarrow> real option) \<Rightarrow> real" where
  "metricOr n field = (case pn_metrics n of None \<Rightarrow> 0 | Some m \<Rightarrow> orElse (field m) 0)"

definition mapMetrics :: "ProjectData \<Rightarrow> MetricData list" where
  "mapMetrics data = (case pd_processMap data of
       None \<Rightarrow> []
     | Some pm \<Rightarrow>
         if pm_nodes pm = [] then []
         else (let totalCycle = fold (\<lambda>n acc. acc + metricOr n cycleTime) (pm_nodes pm) 0;
                   totalCost = fold (\<lambda>n acc. acc + metricOr n resourceCost + metricOr n cost)
                                 (pm_nodes pm) 0
               in [metric ''Designed Cycle Time'' totalCycle ''min'',
                   metric ''Operating Cost'' totalCost ''USD'']))"

text \<open>\<open>metrics.find(m => m.name === n)?.value || d\<close>.\<close>

definition valueOr :: "MetricData list \<Rightarrow> string \<Rightarrow> real \<Rightarrow> real" where
  "valueOr metrics n d = (case find (\<lambda>m. md_name m = n) metrics of
       None \<Rightarrow> d | Some m \<Rightarrow> orNum (md_value m) d)"

text \<open>The two divisors and the score before it is capped.\<close>

definition taktDivisor :: "real \<Rightarrow> real" where
  "taktDivisor takt = orNum takt 1"

definition taktRatio :: "real \<Rightarrow> real \<Rightarrow> real" where
  "taktRatio cycle takt = min (12 / 10) ((cycle * 60) / taktDivisor takt)"

definition ratioDivisor :: "real \<Rightarrow> real \<Rightarrow> real" where
  "ratioDivisor cycle takt = orNum (taktRatio cycle takt) 1"

definition health :: "real \<Rightarrow> real \<Rightarrow> real \<Rightarrow> real" where
  "health eff cycle takt =
     Math_round ((eff * (4 / 10)) + (100 * (1 / ratioDivisor cycle takt) * (6 / 10)))"

definition calculateDynamicMetrics :: "ProjectData \<Rightarrow> MetricData list" where
  "calculateDynamicMetrics data =
     (let metrics = vsmMetrics data @ mapMetrics data in
      if length metrics \<ge> 2 then
        (let eff = valueOr metrics ''Flow Efficiency'' 50;
             cycle = valueOr metrics ''Designed Cycle Time'' 100;
             takt = valueOr metrics ''Takt Time'' 100
         in metric ''Process Health'' (min 100 (health eff cycle takt)) ''Score'' # metrics)
      else metrics)"

section \<open>Example inputs\<close>

text \<open>A value stream with a supplier and two process steps listed right to left.\<close>

definition exVsm :: VSMData where
  "exVsm = \<lparr> vsm_steps =
      [ \<lparr> vs_id = ''p2'', vs_name = ''Pack'', vs_role = Process, vs_x = 500, vs_y = 400,
           vs_data = Some \<lparr> sd_cycleTime = 100, sd_changeoverTime = 5, sd_uptime = 90,
             sd_inventoryCount = None, sd_leadTime = None \<rparr> \<rparr>,
        \<lparr> vs_id = ''s1'', vs_name = ''Acme'', vs_role = Supplier, vs_x = 100, vs_y = 100,
           vs_data = None \<rparr>,
        \<lparr> vs_id = ''p1'', vs_name = ''Pick'', vs_role = Process, vs_x = 300, vs_y = 400,
           vs_data = Some \<lparr> sd_cycleTime = 90, sd_changeoverTime = 0, sd_uptime = 100,
             sd_inventoryCount = None, sd_leadTime = None \<rparr> \<rparr> ],
     vsm_connectors =
      [ \<lparr> vc_id = ''c1'', vc_source = ''p1'', vc_target = ''p2'', vc_type = Push \<rparr>,
        \<lparr> vc_id = ''c2'', vc_source = ''p2'', vc_target = ''gone'', vc_type = Pull \<rparr> ],
     totalLeadTime = 0, totalProcessTime = 0, efficiency = 0,
     customerDemand = Some 100, availableTime = Some 27000 \<rparr>"

text \<open>A value stream with one process step of four and a half seconds.\<close>

definition exHalfVsm :: VSMData where
  "exHalfVsm = \<lparr> vsm_steps =
      [ \<lparr> vs_id = ''h1'', vs_name = ''Label'', vs_role = Process, vs_x = 100, vs_y = 400,
           vs_data = Some \<lparr> sd_cycleTime = 9 / 2, sd_changeoverTime = 2, sd_uptime = 95,
             sd_inventoryCount = None, sd_leadTime = None \<rparr> \<rparr> ],
     vsm_connectors = [], totalLeadTime = 0, totalProcessTime = 0, efficiency = 0,
     customerDemand = Some 100, availableTime = Some 27000 \<rparr>"

text \<open>A flow graph whose labels hold reserved characters, with one edge to a missing
  node, one edge that needs an elbow and one that does not.\<close>

definition exNodes :: "ProcessNode list" where
  "exNodes =
     [ \<lparr> pn_id = ''n1'', pn_type = TASK, pn_label = ''Say '' @ [CHR 0x22] @ ''hi'' @ [CHR 0x22],
         pn_x = 100, pn_y = 100, pn_metrics = None \<rparr>,
       \<lparr> pn_id = ''n2'', pn_type = GATEWAY, pn_label = ''A&B'',
         pn_x = 300, pn_y = 200, pn_metrics = None \<rparr>,
       \<lparr> pn_id = ''n3'', pn_type = END, pn_label = ''Done'',
         pn_x = 500, pn_y = 115, pn_metrics = None \<rparr> ]"

definition exElbowEdge :: ProcessEdge where
  "exElbowEdge = \<lparr> pe_id = ''e1'', pe_source = ''n1'', pe_target = ''n2'',
     pe_label = Some ''a<b&c'' \<rparr>"

definition exDanglingEdge :: ProcessEdge where
  "exDanglingEdge = \<lparr> pe_id = ''e2'', pe_source = ''n1'', pe_target = ''ghost'',
     pe_label = None \<rparr>"

definition exStraightEdge :: ProcessEdge where
  "exStraightEdge = \<lparr> pe_id = ''e3'', pe_source = ''n1'', pe_target = ''n3'',
     pe_label = None \<rparr>"

definition exMap :: ProcessMap where
  "exMap = \<lparr> pm_nodes = exNodes,
     pm_edges = [exElbowEdge, exDanglingEdge, exStraightEdge] \<rparr>"

text \<open>A case graph with an edge whose target is missing.\<close>

definition exCmmn :: CMMNModel where
  "exCmmn = \<lparr> cm_nodes =
       [ \<lparr> cn_id = ''st1'', cn_type = CMMN_STAGE, cn_label = ''Intake'', cn_x = 40, cn_y = 60,
           cn_width = Some 220, cn_height = Some 160 \<rparr> ],
     cm_edges =
       [ \<lparr> ce_id = ''d1'', ce_source = ''st1'', ce_target = ''lost'', ce_type = Dependency \<rparr> ] \<rparr>"

text \<open>Editors in the middle of dragging a node, an idle editor, and a case editor on an
  empty diagram with a moved and zoomed viewport.\<close>

definition exVsmDrag :: "VSMData Editor" where
  "exVsmDrag = \<lparr> viewState = \<lparr> view_x = 0, view_y = 0, view_scale = 1 \<rparr>,
     isPanning = False, lastMousePos = (0, 0), hasPanningMoved = False,
     draggedId = Some ''p1'', dragOffset = (0, 0), diagram = exVsm,
     svgRect = Some (0, 0), container = Some (1000, 800) \<rparr>"

definition exCmmnDrag :: "CMMNModel Editor" where
  "exCmmnDrag = \<lparr> viewState = \<lparr> view_x = 0, view_y = 0, view_scale = 1 \<rparr>,
     isPanning = False, lastMousePos = (0, 0), hasPanningMoved = False,
     draggedId = Some ''st1'', dragOffset = (0, 0), diagram = exCmmn,
     svgRect = Some (0, 0), container = Some (1000, 800) \<rparr>"

definition exVsmIdle :: "VSMData Editor" where
  "exVsmIdle = exVsmDrag \<lparr> draggedId := None \<rparr>"

definition exVsmEmpty :: "VSMData Editor" where
  "exVsmEmpty = exVsmDrag \<lparr> draggedId := None,
     viewState := \<lparr> view_x = 120, view_y = - 40, view_scale = 2 \<rparr>,
     diagram := exVsm \<lparr> vsm_steps := [], vsm_connectors := [] \<rparr> \<rparr>"

definition exCmmnEmpty :: "CMMNModel Editor" where
  "exCmmnEmpty = exCmmnDrag \<lparr> draggedId := None,
     viewState := \<lparr> view_x = 120, view_y = - 40, view_scale = 2 \<rparr>,
     diagram := \<lparr> cm_nodes = [], cm_edges = [] \<rparr> \<rparr>"

text \<open>The scope diagram of the specification's scenario, and the identifiers two
  invocations draw.\<close>

definition exSipoc :: SIPOCData where
  "exSipoc = \<lparr> suppliers = [], inputs = [''Order''],
     process = [''Receive Order'', ''Pack'', ''Ship''], outputs = [''Shipment''],
     customers = [''Retail''] \<rparr>"

definition uuidA :: "nat \<Rightarrow> string" where
  "uuidA k = ''a'' @ replicate k (CHR ''1'') @ ''-4e5f-8a9b''"

definition uuidB :: "nat \<Rightarrow> string" where
  "uuidB k = ''b'' @ replicate k (CHR ''2'') @ ''-4e5f-8a9b''"

text \<open>A third invocation, which draws what the first draws for its first sixteen
  identifiers.\<close>

definition uuidA2 :: "nat \<Rightarrow> string" where
  "uuidA2 k = (if k < 16 then uuidA k else uuidB k)"

text \<open>A project holding the example value stream and the flow graph lifted from it.\<close>

definition exProject :: ProjectData where
  "exProject = \<lparr> pd_vsm = Some exVsm, pd_processMap = Some (convertVsmToBpmn exVsm) \<rparr>"

section \<open>Verification\<close>

subsection \<open>The lift loop in closed form\<close>

lemma fold_liftStep:
  "fold liftStep ps st =
     \<lparr> ls_nodes = ls_nodes st @ taskNodes ps (ls_xOffset st),
       ls_edges = ls_edges st @ chainEdges (ls_previousNodeId st) (map (\<lambda>s. ''Task_'' @ vs_id s) ps),
       ls_previousNodeId = last (ls_previousNodeId st # map (\<lambda>s. ''Task_'' @ vs_id s) ps),
       ls_xOffset = ls_xOffset st + 180 * real (length ps) \<rparr>"
proof (induction ps arbitrary: st)
  case Nil
  show ?case by simp
next
  case (Cons p ps)
  have sel: "ls_nodes (liftStep p st) = ls_nodes st @ [taskNode p (ls_xOffset st)]"
    "ls_edges (liftStep p st) = ls_edges st @ [flowEdge (ls_previousNodeId st) (''Task_'' @ vs_id p)]"
    "ls_previousNodeId (liftStep p st) = ''Task_'' @ vs_id p"
    "ls_xOffset (liftStep p st) = ls_xOffset st + 180"
    by (simp_all add: liftStep_def Let_def taskNode_def)
  show ?case
    by (simp add: Cons.IH sel algebra_simps)
qed

lemma chainEdges_snoc:
  "chainEdges prev (ids @ [j]) = chainEdges prev ids @ [flowEdge (last (prev # ids)) j]"
  by (induction ids arbitrary: prev) simp_all

lemma chainEdges_ends:
  "map (\<lambda>e. (pe_source e, pe_target e)) (chainEdges prev ids) = zip (prev # butlast ids) ids"
  by (induction ids arbitrary: prev) (simp_all add: flowEdge_def)

lemma length_chainEdges: "length (chainEdges prev ids) = length ids"
  by (induction ids arbitrary: prev) simp_all

lemma length_taskNodes: "length (taskNodes ps x) = length ps"
  by (induction ps arbitrary: x) simp_all

lemma ids_taskNodes: "map pn_id (taskNodes ps x) = map (\<lambda>s. ''Task_'' @ vs_id s) ps"
  by (induction ps arbitrary: x) (simp_all add: taskNode_def)

lemma types_taskNodes: "map pn_type (taskNodes ps x) = replicate (length ps) TASK"
  by (induction ps arbitrary: x) (simp_all add: taskNode_def)

lemma nth_taskNodes:
  "i < length ps \<Longrightarrow> taskNodes ps x ! i = taskNode (ps ! i) (x + 180 * real i)"
proof (induction ps arbitrary: x i)
  case Nil
  then show ?case by simp
next
  case (Cons p ps)
  then show ?case by (cases i) (simp_all add: algebra_simps)
qed

lemma convertVsmToBpmn_closed:
  "convertVsmToBpmn vsm =
     \<lparr> pm_nodes = startNode # taskNodes (processSteps vsm) 300
          @ [endNode (300 + 180 * real (length (processSteps vsm)))],
       pm_edges = chainEdges ''StartEvent_1''
          (map (\<lambda>s. ''Task_'' @ vs_id s) (processSteps vsm) @ [''EndEvent_1'']) \<rparr>"
  by (simp add: convertVsmToBpmn_def Let_def fold_liftStep chainEdges_snoc startNode_def)

lemma length_processSteps:
  "length (processSteps vsm) = length (filter (\<lambda>s. vs_role s = Process) (vsm_steps vsm))"
  by (simp add: processSteps_def)

subsection \<open>Rounding to binary64\<close>

lemma roundEven_near: "\<bar>of_int (roundEven m) - m\<bar> \<le> 1 / 2"
proof -
  have "of_int \<lfloor>m\<rfloor> \<le> m \<and> m < of_int \<lfloor>m\<rfloor> + 1"
    by linarith
  then show ?thesis
    by (auto simp: roundEven_def Let_def)
qed

lemma toMantissa_stop: "2 ^ 52 \<le> m \<Longrightarrow> m < 2 ^ 53 \<Longrightarrow> toMantissa fuel m u = (m, u)"
  by (subst toMantissa.simps) simp

lemma toMantissa_product:
  "0 < u \<Longrightarrow> fst (toMantissa fuel m u) * snd (toMantissa fuel m u) = m * u
     \<and> 0 < snd (toMantissa fuel m u)"
proof (induction fuel m u rule: toMantissa.induct)
  case (1 fuel m u)
  show ?case
  proof (cases "fuel = 0")
    case True
    then show ?thesis
      using "1.prems" by (subst (1 2 3) toMantissa.simps) simp
  next
    case f: False
    show ?thesis
    proof (cases "(2::real) ^ 53 \<le> m")
      case True
      with f "1.IH"(1) "1.prems" show ?thesis
        by (subst (1 2 3) toMantissa.simps) simp
    next
      case g: False
      show ?thesis
      proof (cases "m < 2 ^ 52 \<and> 1 / 2 ^ 1074 < u")
        case True
        with f g "1.IH"(2) "1.prems" show ?thesis
          by (subst (1 2 3) toMantissa.simps) simp
      next
        case False
        with f g "1.prems" show ?thesis
          by (subst (1 2 3) toMantissa.simps) auto
      qed
    qed
  qed
qed

lemma toMantissa_halving:
  "n \<le> fuel \<Longrightarrow> 2 ^ 52 \<le> m \<Longrightarrow> m < 2 ^ 53 * 2 ^ n
     \<Longrightarrow> 2 ^ 52 \<le> fst (toMantissa fuel m u)"
proof (induction n arbitrary: fuel m u)
  case 0
  then show ?case by (simp add: toMantissa_stop)
next
  case (Suc n)
  show ?case
  proof (cases "m < 2 ^ 53")
    case True
    with Suc.prems show ?thesis by (simp add: toMantissa_stop)
  next
    case False
    then have step: "toMantissa fuel m u = toMantissa (fuel - 1) (m / 2) (u * 2)"
      using Suc.prems(1) by (subst toMantissa.simps) simp
    have "2 ^ 52 \<le> fst (toMantissa (fuel - 1) (m / 2) (u * 2))"
      using Suc.prems False by (intro Suc.IH) simp_all
    then show ?thesis by (simp add: step)
  qed
qed

lemma toMantissa_doubling:
  "n \<le> fuel \<Longrightarrow> m < 2 ^ 52 \<Longrightarrow> 2 ^ 52 \<le> m * 2 ^ n \<Longrightarrow> 2 ^ n / 2 ^ 1074 \<le> u
     \<Longrightarrow> 2 ^ 52 \<le> fst (toMantissa fuel m u)"
proof (induction n arbitrary: fuel m u)
  case 0
  then show ?case by simp
next
  case (Suc n)
  have "(1::real) \<le> 2 ^ n"
    by simp
  then have "(1::real) < 2 * 2 ^ n"
    by linarith
  then have "(1::real) < 2 ^ Suc n"
    by (simp only: power_Suc)
  then have "(1::real) / 2 ^ 1074 < 2 ^ Suc n / 2 ^ 1074"
    by (intro divide_strict_right_mono) simp_all
  with Suc.prems(4) have u: "1 / 2 ^ 1074 < u"
    by linarith
  have step: "toMantissa fuel m u = toMantissa (fuel - 1) (m * 2) (u / 2)"
    using Suc.prems(1,2) u by (subst toMantissa.simps) simp
  show ?case
  proof (cases "m * 2 < 2 ^ 52")
    case True
    have "2 ^ 52 \<le> fst (toMantissa (fuel - 1) (m * 2) (u / 2))"
      using Suc.prems True by (intro Suc.IH) (simp_all add: field_simps)
    then show ?thesis by (simp add: step)
  next
    case False
    with Suc.prems(2) have "toMantissa (fuel - 1) (m * 2) (u / 2) = (m * 2, u / 2)"
      by (intro toMantissa_stop) simp_all
    with False show ?thesis by (simp add: step)
  qed
qed

lemma toMantissa_normal:
  assumes "1 / 2 ^ 1022 \<le> v" and "v < 2 ^ 1024"
  shows "2 ^ 52 \<le> fst (toMantissa 2200 v 1)"
proof -
  consider "v < 2 ^ 52" | "2 ^ 52 \<le> v" "v < 2 ^ 53" | "2 ^ 53 \<le> v"
    by linarith
  then show ?thesis
  proof cases
    case 1
    have "(2::real) ^ 52 = (1 / 2 ^ 1022) * 2 ^ 1074"
      by simp
    also have "\<dots> \<le> v * 2 ^ 1074"
      using assms(1) by (intro mult_right_mono) simp_all
    finally have "2 ^ 52 \<le> v * 2 ^ 1074" .
    with 1 show ?thesis
      by (intro toMantissa_doubling [where n = 1074]) simp_all
  next
    case 2
    then show ?thesis by (simp add: toMantissa_stop)
  next
    case 3
    have "(2::real) ^ 1024 = 2 ^ 53 * 2 ^ 971"
      by simp
    with 3 assms(2) show ?thesis
      by (intro toMantissa_halving [where n = 971]) simp_all
  qed
qed

lemma round64_error:
  assumes "1 / 2 ^ 1022 \<le> \<bar>v\<bar>" and "\<bar>v\<bar> < 2 ^ 1024"
  shows "\<bar>round64 v - v\<bar> \<le> \<bar>v\<bar> / 2 ^ 53"
proof -
  define m where "m = fst (toMantissa 2200 \<bar>v\<bar> 1)"
  define u where "u = snd (toMantissa 2200 \<bar>v\<bar> 1)"
  have v0: "v \<noteq> 0"
    using assms(1) by auto
  have mu: "m * u = \<bar>v\<bar>" and u0: "0 < u"
    using toMantissa_product [of 1 2200 "\<bar>v\<bar>"] by (simp_all add: m_def u_def)
  have m52: "2 ^ 52 \<le> m"
    unfolding m_def by (rule toMantissa_normal [OF assms])
  have r: "round64 v = sgn v * (of_int (roundEven m) * u)"
    using v0 by (simp add: round64_def m_def u_def case_prod_beta)
  have "v = sgn v * (m * u)"
    by (simp add: mu sgn_mult_abs)
  then have "round64 v - v = sgn v * ((of_int (roundEven m) - m) * u)"
    unfolding r by (simp add: algebra_simps)
  then have "\<bar>round64 v - v\<bar> = \<bar>of_int (roundEven m) - m\<bar> * u"
    using v0 u0 by (simp add: abs_mult abs_sgn_eq)
  also have "\<dots> \<le> (1 / 2) * u"
    using roundEven_near [of m] u0 by (intro mult_right_mono) simp_all
  also have "\<dots> \<le> \<bar>v\<bar> / 2 ^ 53"
  proof -
    have "u * 2 ^ 52 \<le> u * m"
      using m52 u0 by (intro mult_left_mono) simp_all
    then have "u * 2 ^ 52 \<le> \<bar>v\<bar>"
      using mu by (simp add: mult.commute)
    then show ?thesis
      by (simp add: field_simps)
  qed
  finally show ?thesis .
qed

lemma round64_examples:
  "round64 60 = 60" "round64 (9 / 2) = 9 / 2" "round64 100 = 100" "round64 90 = 90"
  by (simp_all add: round64_def toMantissa.simps roundEven_def)

lemma jsDivide_examples:
  "jsDivide (9 / 2) 60 = 5404319552844595 / 2 ^ 56"
  "jsDivide 100 60 = 7505999378950827 / 2 ^ 52"
  "jsDivide 90 60 = 3 / 2"
  unfolding jsDivide_def round64_examples
  by (simp_all add: round64_def toMantissa.simps roundEven_def)

lemma toFixed2_examples:
  "toFixed2 (jsDivide (9 / 2) 60) = 7 / 100"
  "toFixed2 (jsDivide 100 60) = 167 / 100"
  "toFixed2 (jsDivide 90 60) = 3 / 2"
  "toFixed2 (9 / 2 / 60) = 8 / 100"
  unfolding jsDivide_examples by (simp_all add: toFixed2_def)

lemma jsDivide_60_error:
  assumes lo: "1 / 2 ^ 1000 \<le> \<bar>a\<bar>" and hi: "\<bar>a\<bar> \<le> 2 ^ 1000"
  shows "\<bar>jsDivide a 60 - a / 60\<bar> \<le> \<bar>a / 60\<bar> / 2 ^ 51"
proof -
  define a' where "a' = round64 a"
  define q where "q = a' / 60"
  have "(1::real) / 2 ^ 1022 \<le> 1 / 2 ^ 1000" "(2::real) ^ 1000 < 2 ^ 1024"
    by simp_all
  with lo hi have "1 / 2 ^ 1022 \<le> \<bar>a\<bar>" "\<bar>a\<bar> < 2 ^ 1024"
    by linarith+
  then have e1: "\<bar>a' - a\<bar> \<le> \<bar>a\<bar> / 2 ^ 53"
    unfolding a'_def by (rule round64_error)
  have "\<bar>a\<bar> / 2 ^ 53 \<le> \<bar>a\<bar> / 2"
    by (intro divide_left_mono) simp_all
  with e1 have a'lo: "\<bar>a\<bar> / 2 \<le> \<bar>a'\<bar>" and a'hi: "\<bar>a'\<bar> \<le> 2 * \<bar>a\<bar>"
    by linarith+
  have qabs: "\<bar>q\<bar> = \<bar>a'\<bar> / 60"
    by (simp add: q_def)
  have "(1::real) / 2 ^ 1022 \<le> (1 / 2 ^ 1000) / 120"
    by simp
  also have "\<dots> \<le> \<bar>a\<bar> / 120"
    using lo by (intro divide_right_mono) simp_all
  also have "\<dots> \<le> \<bar>q\<bar>"
    using a'lo by (simp add: qabs)
  finally have qlo: "1 / 2 ^ 1022 \<le> \<bar>q\<bar>" .
  have "\<bar>q\<bar> \<le> 2 * \<bar>a\<bar> / 60"
    using a'hi by (simp add: qabs)
  also have "\<dots> \<le> 2 * 2 ^ 1000 / 60"
    using hi by (intro divide_right_mono) simp_all
  also have "\<dots> < 2 ^ 1024"
    by simp
  finally have qhi: "\<bar>q\<bar> < 2 ^ 1024" .
  have e2: "\<bar>round64 q - q\<bar> \<le> \<bar>q\<bar> / 2 ^ 53"
    by (rule round64_error [OF qlo qhi])
  have "\<bar>q\<bar> / 2 ^ 53 \<le> (2 * \<bar>a\<bar> / 60) / 2 ^ 53"
    using a'hi by (intro divide_right_mono) (simp_all add: qabs)
  with e2 have e2': "\<bar>round64 q - q\<bar> \<le> 2 * (\<bar>a\<bar> / 60 / 2 ^ 53)"
    by simp
  have "\<bar>q - a / 60\<bar> = \<bar>a' - a\<bar> / 60"
    by (simp add: q_def diff_divide_distrib [symmetric])
  also have "\<dots> \<le> (\<bar>a\<bar> / 2 ^ 53) / 60"
    using e1 by (intro divide_right_mono) simp_all
  finally have e3: "\<bar>q - a / 60\<bar> \<le> \<bar>a\<bar> / 60 / 2 ^ 53"
    by simp
  have j: "jsDivide a 60 = round64 q"
    by (simp add: jsDivide_def q_def a'_def round64_examples)
  have "\<bar>jsDivide a 60 - a / 60\<bar> \<le> \<bar>round64 q - q\<bar> + \<bar>q - a / 60\<bar>"
    unfolding j by linarith
  also have "\<dots> \<le> 3 * (\<bar>a\<bar> / 60 / 2 ^ 53)"
    using e2' e3 by linarith
  also have "\<dots> \<le> 4 * (\<bar>a\<bar> / 60 / 2 ^ 53)"
    by simp
  also have "\<dots> = \<bar>a / 60\<bar> / 2 ^ 51"
    by simp
  finally show ?thesis .
qed

lemma jsDivide_zero: "jsDivide 0 b = 0"
  by (simp add: jsDivide_def round64_def)

subsection \<open>Rounding to two decimals\<close>

lemma toFixed2_near: "\<bar>toFixed2 v - v\<bar> \<le> 1 / 200"
proof -
  have fl: "\<And>y::real. of_int \<lfloor>y\<rfloor> \<le> y \<and> y < of_int \<lfloor>y\<rfloor> + 1"
    by linarith
  show ?thesis
    using fl [of "v * 100 + 1 / 2"] fl [of "(- v) * 100 + 1 / 2"]
    by (simp add: toFixed2_def field_simps abs_if) 
qed

lemma toFixed2_hundredths: "\<exists>n::int. toFixed2 v = of_int n / 100"
proof (cases "v < 0")
  case True
  then have "toFixed2 v = of_int (- \<lfloor>(- v) * 100 + 1 / 2\<rfloor>) / 100"
    by (simp add: toFixed2_def)
  then show ?thesis by blast
next
  case False
  then have "toFixed2 v = of_int \<lfloor>v * 100 + 1 / 2\<rfloor> / 100"
    by (simp add: toFixed2_def)
  then show ?thesis by blast
qed

lemma toFixed2_zero: "toFixed2 0 = 0"
  by (simp add: toFixed2_def)

lemma cycleTimeMin_Some:
  "vs_data step = Some d \<Longrightarrow> cycleTimeMin step = toFixed2 (jsDivide (sd_cycleTime d) 60)"
  by (simp add: cycleTimeMin_def toFixed2_zero jsDivide_zero)

subsection \<open>Pipeline cardinality and the linear chain\<close>

text \<open>
  Claim C1. For a value stream with \<open>k\<close> process-role steps, \<open>convertVsmToBpmn\<close>
  returns \<open>k + 2\<close> nodes (the start event, the \<open>k\<close> tasks, the end event) and
  \<open>k + 1\<close> edges. The tasks are the process steps in ascending order of \<open>x\<close>, and
  the edges link each node to the next one in the node list, so they form one chain from
  the start to the end; with distinct step ids the chain visits no node twice.
\<close>

theorem convertVsmToBpmn_linear_chain:
  "let procs = filter (\<lambda>s. vs_role s = Process) (vsm_steps vsm);
       k = length procs;
       ps = processSteps vsm;
       ns = pm_nodes (convertVsmToBpmn vsm);
       es = pm_edges (convertVsmToBpmn vsm)
   in length ns = k + 2 \<and> length es = k + 1
      \<and> mset ps = mset procs \<and> sorted (map vs_x ps)
      \<and> ns = startNode # taskNodes ps 300 @ [endNode (300 + 180 * real k)]
      \<and> map pn_type ns = START # replicate k TASK @ [END]
      \<and> map pn_id ns = ''StartEvent_1'' # map (\<lambda>s. ''Task_'' @ vs_id s) ps @ [''EndEvent_1'']
      \<and> map (\<lambda>e. (pe_source e, pe_target e)) es = zip (butlast (map pn_id ns)) (tl (map pn_id ns))
      \<and> (distinct (map vs_id procs) \<longrightarrow> distinct (map pn_id ns))"
proof -
  define procs where "procs = filter (\<lambda>s. vs_role s = Process) (vsm_steps vsm)"
  define ps where "ps = processSteps vsm"
  define ns where "ns = pm_nodes (convertVsmToBpmn vsm)"
  define es where "es = pm_edges (convertVsmToBpmn vsm)"
  define tids where "tids = map (\<lambda>s. ''Task_'' @ vs_id s) ps"
  have ps_sort: "ps = sort_key vs_x procs"
    by (simp add: ps_def procs_def processSteps_def)
  have len: "length ps = length procs"
    by (simp add: ps_sort)
  have ms: "mset ps = mset procs"
    by (simp add: ps_sort)
  have srt: "sorted (map vs_x ps)"
    by (simp add: ps_sort)
  have ns_eq: "ns = startNode # taskNodes ps 300 @ [endNode (300 + 180 * real (length procs))]"
    by (simp add: ns_def convertVsmToBpmn_closed ps_def [symmetric] len)
  have es_eq: "es = chainEdges ''StartEvent_1'' (tids @ [''EndEvent_1''])"
    by (simp add: es_def convertVsmToBpmn_closed ps_def [symmetric] tids_def)
  have ids: "map pn_id ns = ''StartEvent_1'' # tids @ [''EndEvent_1'']"
    by (simp add: ns_eq ids_taskNodes tids_def startNode_def endNode_def)
  have tys: "map pn_type ns = START # replicate (length procs) TASK @ [END]"
    by (simp add: ns_eq types_taskNodes startNode_def endNode_def len)
  have ends: "map (\<lambda>e. (pe_source e, pe_target e)) es
      = zip (butlast (map pn_id ns)) (tl (map pn_id ns))"
    by (simp add: es_eq chainEdges_ends ids butlast_append)
  have dist: "distinct (map pn_id ns)" if d: "distinct (map vs_id procs)"
  proof -
    have "mset (map vs_id ps) = mset (map vs_id procs)"
      using ms by (metis mset_map)
    then have "distinct (map vs_id ps)"
      using d by (metis mset_eq_imp_distinct_iff)
    then have "distinct tids"
      by (simp add: tids_def distinct_map inj_on_def)
    moreover have "''StartEvent_1'' \<notin> set tids" "''EndEvent_1'' \<notin> set tids"
      by (auto simp: tids_def)
    ultimately show ?thesis
      by (simp add: ids)
  qed
  have "length ns = length procs + 2"
    by (simp add: ns_eq length_taskNodes len)
  moreover have "length es = length procs + 1"
    by (simp add: es_eq length_chainEdges tids_def len)
  ultimately show ?thesis
    using ms srt ns_eq tys ids ends dist
    unfolding Let_def procs_def [symmetric] ps_def [symmetric] ns_def [symmetric]
      es_def [symmetric] tids_def [symmetric]
    by blast
qed

theorem convertVsmToBpmn_linear_chain_witness:
  "distinct (map vs_id (filter (\<lambda>s. vs_role s = Process) (vsm_steps exVsm)))
   \<and> length (pm_nodes (convertVsmToBpmn exVsm)) = 4
   \<and> map pn_id (pm_nodes (convertVsmToBpmn exVsm))
        = [''StartEvent_1'', ''Task_p1'', ''Task_p2'', ''EndEvent_1'']
   \<and> map (\<lambda>e. (pe_source e, pe_target e)) (pm_edges (convertVsmToBpmn exVsm))
        = [(''StartEvent_1'', ''Task_p1''), (''Task_p1'', ''Task_p2''), (''Task_p2'', ''EndEvent_1'')]
   \<and> distinct (map pn_id (pm_nodes (convertVsmToBpmn exVsm)))"
proof -
  have d: "distinct (map vs_id (filter (\<lambda>s. vs_role s = Process) (vsm_steps exVsm)))"
    by (simp add: exVsm_def)
  have k: "length (filter (\<lambda>s. vs_role s = Process) (vsm_steps exVsm)) = 2"
    by (simp add: exVsm_def)
  have ps: "map (\<lambda>s. ''Task_'' @ vs_id s) (processSteps exVsm) = [''Task_p1'', ''Task_p2'']"
    by (simp add: exVsm_def processSteps_def)
  note h = convertVsmToBpmn_linear_chain [of exVsm, unfolded Let_def k ps]
  from h have n: "length (pm_nodes (convertVsmToBpmn exVsm)) = 2 + 2"
    by blast
  from h have ids: "map pn_id (pm_nodes (convertVsmToBpmn exVsm))
      = ''StartEvent_1'' # [''Task_p1'', ''Task_p2''] @ [''EndEvent_1'']"
    by blast
  from h have "map (\<lambda>e. (pe_source e, pe_target e)) (pm_edges (convertVsmToBpmn exVsm))
      = zip (butlast (map pn_id (pm_nodes (convertVsmToBpmn exVsm))))
          (tl (map pn_id (pm_nodes (convertVsmToBpmn exVsm))))"
    by blast
  then have es: "map (\<lambda>e. (pe_source e, pe_target e)) (pm_edges (convertVsmToBpmn exVsm))
      = [(''StartEvent_1'', ''Task_p1''), (''Task_p1'', ''Task_p2''), (''Task_p2'', ''EndEvent_1'')]"
    by (simp add: ids)
  from h d have "distinct (map pn_id (pm_nodes (convertVsmToBpmn exVsm)))"
    by blast
  with d n ids es show ?thesis
    by simp
qed

subsection \<open>Metric transfer\<close>

text \<open>
  Claim C3 fails as stated. A process step of 4.5 seconds becomes a task of 0.07 minutes:
  the binary64 quotient of 4.5 by 60 lies just below 0.075, so \<open>toFixed(2)\<close> takes it
  down, while 4.5 divided by 60 is 0.075 and rounds to 0.08.
\<close>

theorem cycle_time_exact_rounding_counterexample:
  "vs_data (processSteps exHalfVsm ! 0)
     = Some \<lparr> sd_cycleTime = 9 / 2, sd_changeoverTime = 2, sd_uptime = 95,
         sd_inventoryCount = None, sd_leadTime = None \<rparr>
   \<and> pn_metrics (pm_nodes (convertVsmToBpmn exHalfVsm) ! 1)
     = Some \<lparr> cycleTime = Some (7 / 100), cost = Some 0, errorRate = None,
         waitingTime = Some 0, changeoverTime = Some 2, uptime = Some 95,
         resourceCost = None \<rparr>
   \<and> 9 / 2 / 60 = (75 / 1000 :: real)
   \<and> toFixed2 (9 / 2 / 60) = 8 / 100"
proof -
  have ps: "processSteps exHalfVsm = vsm_steps exHalfVsm"
    by (simp add: exHalfVsm_def processSteps_def)
  have c: "cycleTimeMin (vsm_steps exHalfVsm ! 0) = 7 / 100"
    by (simp add: exHalfVsm_def cycleTimeMin_def toFixed2_examples)
  have "pn_metrics (pm_nodes (convertVsmToBpmn exHalfVsm) ! 1)
     = Some \<lparr> cycleTime = Some (7 / 100), cost = Some 0, errorRate = None,
         waitingTime = Some 0, changeoverTime = Some 2, uptime = Some 95,
         resourceCost = None \<rparr>"
  proof -
    have t: "taskNodes (vsm_steps exHalfVsm) 300 = [taskNode (vsm_steps exHalfVsm ! 0) 300]"
      by (simp add: exHalfVsm_def)
    have o: "stepChangeover (vsm_steps exHalfVsm ! 0) = 2" "stepUptime (vsm_steps exHalfVsm ! 0) = 95"
      by (simp_all add: exHalfVsm_def stepChangeover_def stepUptime_def)
    show ?thesis
      unfolding convertVsmToBpmn_closed ps t by (simp add: taskNode_def c o)
  qed
  moreover have "vs_data (processSteps exHalfVsm ! 0)
     = Some \<lparr> sd_cycleTime = 9 / 2, sd_changeoverTime = 2, sd_uptime = 95,
         sd_inventoryCount = None, sd_leadTime = None \<rparr>"
    unfolding ps by (simp add: exHalfVsm_def)
  moreover have "9 / 2 / 60 = (75 / 1000 :: real)"
    by simp
  ultimately show ?thesis
    using toFixed2_examples(4) by blast
qed

text \<open>
  Claim C3, amended. The task built from a process step carries the binary64 quotient of
  the step's cycle time by 60, rounded to two decimals: a multiple of a hundredth at most
  half a hundredth away from that quotient, and so, for a cycle time between \<open>2^-1000\<close>
  and \<open>2^1000\<close> in magnitude, at most half a hundredth plus \<open>2^-51\<close> of the exact
  quotient away from the exact quotient. A cycle time of zero gives zero. The step's
  changeover time and uptime are carried over unchanged.
\<close>

theorem convertVsmToBpmn_metrics:
  assumes "i < length (processSteps vsm)"
    and "vs_data (processSteps vsm ! i) = Some d"
  shows "\<exists>m. pn_metrics (pm_nodes (convertVsmToBpmn vsm) ! Suc i) = Some m
     \<and> pn_label (pm_nodes (convertVsmToBpmn vsm) ! Suc i) = vs_name (processSteps vsm ! i)
     \<and> cycleTime m = Some (toFixed2 (jsDivide (sd_cycleTime d) 60))
     \<and> \<bar>toFixed2 (jsDivide (sd_cycleTime d) 60) - jsDivide (sd_cycleTime d) 60\<bar> \<le> 1 / 200
     \<and> (\<exists>n::int. toFixed2 (jsDivide (sd_cycleTime d) 60) = of_int n / 100)
     \<and> (1 / 2 ^ 1000 \<le> \<bar>sd_cycleTime d\<bar> \<and> \<bar>sd_cycleTime d\<bar> \<le> 2 ^ 1000 \<longrightarrow>
          \<bar>toFixed2 (jsDivide (sd_cycleTime d) 60) - sd_cycleTime d / 60\<bar>
            \<le> 1 / 200 + \<bar>sd_cycleTime d / 60\<bar> / 2 ^ 51)
     \<and> (sd_cycleTime d = 0 \<longrightarrow> cycleTime m = Some 0)
     \<and> changeoverTime m = Some (sd_changeoverTime d)
     \<and> uptime m = Some (sd_uptime d)"
proof -
  let ?q = "jsDivide (sd_cycleTime d) 60"
  have node: "pm_nodes (convertVsmToBpmn vsm) ! Suc i
      = taskNode (processSteps vsm ! i) (300 + 180 * real i)"
    using assms(1)
    by (simp add: convertVsmToBpmn_closed nth_append length_taskNodes nth_taskNodes)
  have near: "\<bar>toFixed2 ?q - ?q\<bar> \<le> 1 / 200"
    by (rule toFixed2_near)
  have exact: "\<bar>toFixed2 ?q - sd_cycleTime d / 60\<bar> \<le> 1 / 200 + \<bar>sd_cycleTime d / 60\<bar> / 2 ^ 51"
    if "1 / 2 ^ 1000 \<le> \<bar>sd_cycleTime d\<bar> \<and> \<bar>sd_cycleTime d\<bar> \<le> 2 ^ 1000"
  proof -
    have "\<bar>?q - sd_cycleTime d / 60\<bar> \<le> \<bar>sd_cycleTime d / 60\<bar> / 2 ^ 51"
      using that by (intro jsDivide_60_error) simp_all
    with near show ?thesis
      by linarith
  qed
  have zero: "toFixed2 ?q = 0" if "sd_cycleTime d = 0"
    using that by (simp add: jsDivide_zero toFixed2_zero)
  define m where "m = \<lparr> cycleTime = Some (toFixed2 ?q), cost = Some 0,
       errorRate = None, waitingTime = Some 0,
       changeoverTime = Some (sd_changeoverTime d), uptime = Some (sd_uptime d),
       resourceCost = None \<rparr>"
  have "pn_metrics (pm_nodes (convertVsmToBpmn vsm) ! Suc i) = Some m"
    "pn_label (pm_nodes (convertVsmToBpmn vsm) ! Suc i) = vs_name (processSteps vsm ! i)"
    using assms(2)
    by (simp_all add: node taskNode_def cycleTimeMin_Some stepChangeover_def stepUptime_def m_def)
  moreover have "cycleTime m = Some (toFixed2 ?q)" "changeoverTime m = Some (sd_changeoverTime d)"
    "uptime m = Some (sd_uptime d)"
    by (simp_all add: m_def)
  moreover have "sd_cycleTime d = 0 \<longrightarrow> cycleTime m = Some 0"
    using zero by (simp add: m_def)
  ultimately show ?thesis
    using near exact toFixed2_hundredths [of ?q] by blast
qed

theorem convertVsmToBpmn_metrics_witness:
  "1 < length (processSteps exVsm)
   \<and> sd_cycleTime (the (vs_data (processSteps exVsm ! 1))) = 100
   \<and> (1 / 2 ^ 1000 \<le> \<bar>100 :: real\<bar> \<and> \<bar>100 :: real\<bar> \<le> 2 ^ 1000)
   \<and> (\<exists>m. pn_metrics (pm_nodes (convertVsmToBpmn exVsm) ! 2) = Some m
        \<and> cycleTime m = Some (167 / 100) \<and> changeoverTime m = Some 5 \<and> uptime m = Some 90)
   \<and> \<bar>167 / 100 - 100 / 60\<bar> \<le> 1 / 200 + \<bar>100 / 60 :: real\<bar> / 2 ^ 51"
proof -
  have ps: "processSteps exVsm = [vsm_steps exVsm ! 2, vsm_steps exVsm ! 0]"
    by (simp add: exVsm_def processSteps_def)
  have l: "1 < length (processSteps exVsm)"
    by (simp add: ps)
  obtain d where d: "vs_data (processSteps exVsm ! 1) = Some d"
    and dv: "sd_cycleTime d = 100" "sd_changeoverTime d = 5" "sd_uptime d = 90"
    by (simp add: ps) (simp add: exVsm_def)
  have r: "toFixed2 (jsDivide 100 60) = 167 / 100"
    by (rule toFixed2_examples)
  have range: "1 / 2 ^ 1000 \<le> \<bar>100 :: real\<bar> \<and> \<bar>100 :: real\<bar> \<le> 2 ^ 1000"
    by simp
  from convertVsmToBpmn_metrics [OF l d, unfolded dv r]
  obtain m where m: "pn_metrics (pm_nodes (convertVsmToBpmn exVsm) ! Suc 1) = Some m"
    "cycleTime m = Some (167 / 100)" "changeoverTime m = Some 5" "uptime m = Some 90"
    and b: "1 / 2 ^ 1000 \<le> \<bar>100 :: real\<bar> \<and> \<bar>100 :: real\<bar> \<le> 2 ^ 1000 \<longrightarrow>
          \<bar>167 / 100 - 100 / 60\<bar> \<le> 1 / 200 + \<bar>100 / 60 :: real\<bar> / 2 ^ 51"
    by blast
  from b range have bound: "\<bar>167 / 100 - 100 / 60\<bar> \<le> 1 / 200 + \<bar>100 / 60 :: real\<bar> / 2 ^ 51"
    by blast
  have two: "Suc 1 = 2"
    by simp
  from m have "\<exists>m. pn_metrics (pm_nodes (convertVsmToBpmn exVsm) ! 2) = Some m
      \<and> cycleTime m = Some (167 / 100) \<and> changeoverTime m = Some 5 \<and> uptime m = Some 90"
    unfolding two by blast
  with l d dv range bound show ?thesis
    by auto
qed

subsection \<open>Wire export: routing, dropped edges, escaping\<close>

lemma find_None_iff_exists: "find (\<lambda>n. pn_id n = i) nodes = None \<longleftrightarrow> \<not> nodeExists nodes i"
  by (auto simp: nodeExists_def find_None_iff list_ex_iff)

lemma edgeShape_dangling:
  "\<not> nodeExists nodes (pe_source edge) \<or> \<not> nodeExists nodes (pe_target edge)
     \<Longrightarrow> edgeShape nodes edge = []"
  by (auto simp: edgeShape_def find_None_iff_exists [symmetric] split: option.splits)

lemma edgeShape_valid:
  "nodeExists nodes (pe_source edge) \<Longrightarrow> nodeExists nodes (pe_target edge)
     \<Longrightarrow> length (edgeShape nodes edge) = 1"
  by (cases "find (\<lambda>n. pn_id n = pe_source edge) nodes";
      cases "find (\<lambda>n. pn_id n = pe_target edge) nodes")
     (simp_all add: edgeShape_def find_None_iff_exists)

lemma concat_map_filter_empty:
  "(\<And>x. x \<in> set xs \<Longrightarrow> \<not> P x \<Longrightarrow> f x = []) \<Longrightarrow>
     concat (map f (filter P xs)) = concat (map f xs)"
  by (induction xs) simp_all

text \<open>
  Claim C2. For an edge of the diagram whose source and target ids both resolve, the
  diagram-interchange record of the edge starts at the source's right-middle point and
  ends at the target's left-middle point. When the two port heights differ by more than
  10 the path has exactly two interior waypoints, both at the midpoint of the two port
  abscissas, the first at the source port's height and the second at the target port's;
  otherwise it has none.
\<close>

theorem forced_left_to_right_routing:
  assumes "edge \<in> set (pm_edges data)"
    and "find (\<lambda>n. pn_id n = pe_source edge) (pm_nodes data) = Some source"
    and "find (\<lambda>n. pn_id n = pe_target edge) (pm_nodes data) = Some target"
    and "sx = pn_x source + fst (getNodeDim (pn_type source))"
    and "sy = pn_y source + snd (getNodeDim (pn_type source)) / 2"
    and "tx = pn_x target"
    and "ty = pn_y target + snd (getNodeDim (pn_type target)) / 2"
  shows "\<exists>de. edgeShape (pm_nodes data) edge = [de]
     \<and> de \<in> set (bx_edges (jsonToBpmnXml uuid data))
     \<and> de_bpmnElement de = pe_id edge
     \<and> hd (de_waypoints de) = (sx, sy) \<and> last (de_waypoints de) = (tx, ty)
     \<and> (\<bar>sy - ty\<bar> > 10 \<longrightarrow>
          de_waypoints de = [(sx, sy), ((sx + tx) / 2, sy), ((sx + tx) / 2, ty), (tx, ty)])
     \<and> (\<not> \<bar>sy - ty\<bar> > 10 \<longrightarrow> de_waypoints de = [(sx, sy), (tx, ty)])"
proof -
  define de where "de = \<lparr> de_id = pe_id edge @ ''_di'', de_bpmnElement = pe_id edge,
     de_waypoints = edgeWaypoints source target,
     de_label = (case pe_label edge of None \<Rightarrow> False | Some l \<Rightarrow> l \<noteq> []) \<rparr>"
  have shape: "edgeShape (pm_nodes data) edge = [de]"
    by (simp add: edgeShape_def assms(2,3) de_def)
  have mid: "sx + (tx - sx) / 2 = (sx + tx) / 2"
    by (simp add: field_simps)
  have wp: "de_waypoints de =
      (if \<bar>sy - ty\<bar> > 10 then [(sx, sy), ((sx + tx) / 2, sy), ((sx + tx) / 2, ty), (tx, ty)]
       else [(sx, sy), (tx, ty)])"
    unfolding de_def edgeWaypoints_def Let_def
    by (simp add: assms(4-7) [symmetric] mid)
  have mem: "de \<in> set (bx_edges (jsonToBpmnXml uuid data))"
    using assms(1) shape by (force simp: jsonToBpmnXml_def)
  have "de_bpmnElement de = pe_id edge"
    by (simp add: de_def)
  with shape mem wp show ?thesis
    by (intro exI [of _ de]) simp
qed


theorem forced_left_to_right_routing_witness:
  "exElbowEdge \<in> set (pm_edges exMap) \<and> exStraightEdge \<in> set (pm_edges exMap)
   \<and> find (\<lambda>n. pn_id n = pe_source exElbowEdge) (pm_nodes exMap) = Some (exNodes ! 0)
   \<and> find (\<lambda>n. pn_id n = pe_target exElbowEdge) (pm_nodes exMap) = Some (exNodes ! 1)
   \<and> find (\<lambda>n. pn_id n = pe_target exStraightEdge) (pm_nodes exMap) = Some (exNodes ! 2)
   \<and> (\<exists>de. edgeShape (pm_nodes exMap) exElbowEdge = [de]
         \<and> de_waypoints de = [(200, 140), (250, 140), (250, 225), (300, 225)])
   \<and> (\<exists>de. edgeShape (pm_nodes exMap) exStraightEdge = [de]
         \<and> de_waypoints de = [(200, 140), (500, 133)])"
proof -
  have e1: "exElbowEdge \<in> set (pm_edges exMap)" and e3: "exStraightEdge \<in> set (pm_edges exMap)"
    by (simp_all add: exMap_def)
  have s1: "find (\<lambda>n. pn_id n = pe_source exElbowEdge) (pm_nodes exMap) = Some (exNodes ! 0)"
    by (simp add: exMap_def exNodes_def exElbowEdge_def)
  have t1: "find (\<lambda>n. pn_id n = pe_target exElbowEdge) (pm_nodes exMap) = Some (exNodes ! 1)"
    by (simp add: exMap_def exNodes_def exElbowEdge_def)
  have s3: "find (\<lambda>n. pn_id n = pe_source exStraightEdge) (pm_nodes exMap) = Some (exNodes ! 0)"
    by (simp add: exMap_def exNodes_def exStraightEdge_def)
  have t3: "find (\<lambda>n. pn_id n = pe_target exStraightEdge) (pm_nodes exMap) = Some (exNodes ! 2)"
    by (simp add: exMap_def exNodes_def exStraightEdge_def)
  have sx: "(200::real) = pn_x (exNodes ! 0) + fst (getNodeDim (pn_type (exNodes ! 0)))"
    and sy: "(140::real) = pn_y (exNodes ! 0) + snd (getNodeDim (pn_type (exNodes ! 0))) / 2"
    and tx1: "(300::real) = pn_x (exNodes ! 1)"
    and ty1: "(225::real) = pn_y (exNodes ! 1) + snd (getNodeDim (pn_type (exNodes ! 1))) / 2"
    and tx3: "(500::real) = pn_x (exNodes ! 2)"
    and ty3: "(133::real) = pn_y (exNodes ! 2) + snd (getNodeDim (pn_type (exNodes ! 2))) / 2"
    by (simp_all add: exNodes_def getNodeDim_def)
  from forced_left_to_right_routing [OF e1 s1 t1 sx sy tx1 ty1]
  have elbow: "\<exists>de. edgeShape (pm_nodes exMap) exElbowEdge = [de]
      \<and> de_waypoints de = [(200, 140), (250, 140), (250, 225), (300, 225)]"
    by auto
  from forced_left_to_right_routing [OF e3 s3 t3 sx sy tx3 ty3]
  have straight: "\<exists>de. edgeShape (pm_nodes exMap) exStraightEdge = [de]
      \<and> de_waypoints de = [(200, 140), (500, 133)]"
    by auto
  from e1 e3 s1 t1 t3 elbow straight show ?thesis
    by blast
qed


text \<open>
  Claim C8. An edge whose source or target id names no node of the diagram yields no
  sequence-flow element and no diagram-interchange edge record: the export is the export
  of the diagram without such edges, and it holds one edge record per edge with both ends
  present. The value-stream editor's \<open>renderConnector\<close> and the case editor's edge
  rendering return \<open>null\<close> for such an edge. All of these are total: no input
  makes them raise.
\<close>

theorem dangling_edges_dropped:
  "(\<not> nodeExists (pm_nodes data) (pe_source edge) \<or> \<not> nodeExists (pm_nodes data) (pe_target edge)
      \<longrightarrow> sequenceFlow (pm_nodes data) edge = [] \<and> edgeShape (pm_nodes data) edge = [])
   \<and> jsonToBpmnXml uuid data = jsonToBpmnXml uuid (data \<lparr> pm_edges :=
        filter (\<lambda>e. nodeExists (pm_nodes data) (pe_source e)
                   \<and> nodeExists (pm_nodes data) (pe_target e)) (pm_edges data) \<rparr>)
   \<and> length (bx_edges (jsonToBpmnXml uuid data))
        = length (filter (\<lambda>e. nodeExists (pm_nodes data) (pe_source e)
                   \<and> nodeExists (pm_nodes data) (pe_target e)) (pm_edges data))
   \<and> (vc_source conn \<notin> vs_id ` set (vsm_steps vsm) \<or> vc_target conn \<notin> vs_id ` set (vsm_steps vsm)
      \<longrightarrow> renderConnector vsm conn = None)
   \<and> (ce_source ce \<notin> cn_id ` set (cm_nodes cm) \<or> ce_target ce \<notin> cn_id ` set (cm_nodes cm)
      \<longrightarrow> renderEdge cm ce = None)"
proof -
  let ?ok = "\<lambda>e. nodeExists (pm_nodes data) (pe_source e) \<and> nodeExists (pm_nodes data) (pe_target e)"
  have a: "\<not> ?ok edge \<longrightarrow> sequenceFlow (pm_nodes data) edge = [] \<and> edgeShape (pm_nodes data) edge = []"
    using edgeShape_dangling [of "pm_nodes data" edge] by (auto simp: sequenceFlow_def)
  have f1: "concat (map (sequenceFlow (pm_nodes data)) (filter ?ok (pm_edges data)))
      = concat (map (sequenceFlow (pm_nodes data)) (pm_edges data))"
    by (rule concat_map_filter_empty) (auto simp: sequenceFlow_def)
  have f2: "concat (map (edgeShape (pm_nodes data)) (filter ?ok (pm_edges data)))
      = concat (map (edgeShape (pm_nodes data)) (pm_edges data))"
    by (rule concat_map_filter_empty) (use edgeShape_dangling in blast)
  have b: "jsonToBpmnXml uuid data = jsonToBpmnXml uuid (data \<lparr> pm_edges := filter ?ok (pm_edges data) \<rparr>)"
    by (simp add: jsonToBpmnXml_def f1 f2)
  have "length (concat (map (edgeShape (pm_nodes data)) es)) = length (filter ?ok es)" for es
  proof (induction es)
    case Nil
    show ?case by simp
  next
    case (Cons e es)
    show ?case
    proof (cases "?ok e")
      case True
      then show ?thesis
        using Cons.IH edgeShape_valid [of "pm_nodes data" e] by simp
    next
      case False
      then show ?thesis
        using Cons.IH edgeShape_dangling [of "pm_nodes data" e] by auto
    qed
  qed
  then have c: "length (bx_edges (jsonToBpmnXml uuid data)) = length (filter ?ok (pm_edges data))"
    by (simp add: jsonToBpmnXml_def)
  have d: "vc_source conn \<notin> vs_id ` set (vsm_steps vsm) \<or> vc_target conn \<notin> vs_id ` set (vsm_steps vsm)
      \<longrightarrow> renderConnector vsm conn = None"
  proof
    assume "vc_source conn \<notin> vs_id ` set (vsm_steps vsm) \<or> vc_target conn \<notin> vs_id ` set (vsm_steps vsm)"
    then have "find (\<lambda>s. vs_id s = vc_source conn) (vsm_steps vsm) = None
        \<or> find (\<lambda>s. vs_id s = vc_target conn) (vsm_steps vsm) = None"
      unfolding find_None_iff by (metis imageI)
    then show "renderConnector vsm conn = None"
      by (auto simp: renderConnector_def split: option.splits)
  qed
  have e: "ce_source ce \<notin> cn_id ` set (cm_nodes cm) \<or> ce_target ce \<notin> cn_id ` set (cm_nodes cm)
      \<longrightarrow> renderEdge cm ce = None"
  proof
    assume "ce_source ce \<notin> cn_id ` set (cm_nodes cm) \<or> ce_target ce \<notin> cn_id ` set (cm_nodes cm)"
    then have "find (\<lambda>n. cn_id n = ce_source ce) (cm_nodes cm) = None
        \<or> find (\<lambda>n. cn_id n = ce_target ce) (cm_nodes cm) = None"
      unfolding find_None_iff by (metis imageI)
    then show "renderEdge cm ce = None"
      by (auto simp: renderEdge_def split: option.splits)
  qed
  from a b c d e show ?thesis
    by blast
qed

theorem dangling_edges_dropped_witness:
  "\<not> nodeExists (pm_nodes exMap) (pe_target exDanglingEdge)
   \<and> sequenceFlow (pm_nodes exMap) exDanglingEdge = []
   \<and> edgeShape (pm_nodes exMap) exDanglingEdge = []
   \<and> length (bx_edges (jsonToBpmnXml (uuidA 0) exMap)) = 2
   \<and> vc_target (vsm_connectors exVsm ! 1) \<notin> vs_id ` set (vsm_steps exVsm)
   \<and> renderConnector exVsm (vsm_connectors exVsm ! 1) = None
   \<and> ce_target (cm_edges exCmmn ! 0) \<notin> cn_id ` set (cm_nodes exCmmn)
   \<and> renderEdge exCmmn (cm_edges exCmmn ! 0) = None"
proof -
  have a: "\<not> nodeExists (pm_nodes exMap) (pe_target exDanglingEdge)"
    by (simp add: nodeExists_def exMap_def exNodes_def exDanglingEdge_def)
  have b: "vc_target (vsm_connectors exVsm ! 1) \<notin> vs_id ` set (vsm_steps exVsm)"
    by (simp add: exVsm_def)
  have c: "ce_target (cm_edges exCmmn ! 0) \<notin> cn_id ` set (cm_nodes exCmmn)"
    by (simp add: exCmmn_def)
  have n: "length (filter (\<lambda>e. nodeExists (pm_nodes exMap) (pe_source e)
      \<and> nodeExists (pm_nodes exMap) (pe_target e)) (pm_edges exMap)) = 2"
    by (simp add: nodeExists_def exMap_def exNodes_def exDanglingEdge_def exElbowEdge_def
        exStraightEdge_def)
  note h = dangling_edges_dropped [of exMap exDanglingEdge "uuidA 0" "vsm_connectors exVsm ! 1"
      exVsm "cm_edges exCmmn ! 0" exCmmn]
  from h a have "sequenceFlow (pm_nodes exMap) exDanglingEdge = []
      \<and> edgeShape (pm_nodes exMap) exDanglingEdge = []"
    by blast
  moreover from h have "length (bx_edges (jsonToBpmnXml (uuidA 0) exMap))
      = length (filter (\<lambda>e. nodeExists (pm_nodes exMap) (pe_source e)
          \<and> nodeExists (pm_nodes exMap) (pe_target e)) (pm_edges exMap))"
    by blast
  then have "length (bx_edges (jsonToBpmnXml (uuidA 0) exMap)) = 2"
    by (simp only: n)
  moreover from h b have "renderConnector exVsm (vsm_connectors exVsm ! 1) = None"
    by blast
  moreover from h c have "renderEdge exCmmn (cm_edges exCmmn ! 0) = None"
    by blast
  ultimately show ?thesis
    using a b c by blast
qed


text \<open>What the two escaping paths do remove: a node label leaves the export without
  angle brackets, an edge label without double quotes.\<close>

lemma set_replaceAll: "set (replaceAll c rep s) \<subseteq> (set s - {c}) \<union> set rep"
  by (induction s) (auto simp: replaceAll_def)

lemma sanitizedLabel_angle_free:
  "CHR ''<'' \<notin> set (sanitizedLabel l) \<and> CHR ''>'' \<notin> set (sanitizedLabel l)"
proof -
  let ?a = "replaceAll (CHR ''&'') ''&amp;'' l"
  let ?b = "replaceAll (CHR ''<'') ''&lt;'' ?a"
  have "CHR ''<'' \<notin> set ?b"
    using set_replaceAll [of "CHR ''<''" "''&lt;''" ?a] by auto
  then have "CHR ''<'' \<notin> set (replaceAll (CHR ''>'') ''&gt;'' ?b)"
    using set_replaceAll [of "CHR ''>''" "''&gt;''" ?b] by auto
  moreover have "CHR ''>'' \<notin> set (replaceAll (CHR ''>'') ''&gt;'' ?b)"
    using set_replaceAll [of "CHR ''>''" "''&gt;''" ?b] by auto
  ultimately show ?thesis
    by (simp add: sanitizedLabel_def)
qed

lemma nameAttr_quote_free: "nameAttr edge = Some a \<Longrightarrow> CHR 0x22 \<notin> set a"
  using set_replaceAll [of "CHR 0x22" "''&quot;''" "the (pe_label edge)"]
  by (auto simp: nameAttr_def split: option.splits if_splits)

text \<open>
  Claim C7, evaluated at the example flow graph. The double quotes of the first node's
  label and the \<open><\<close> and \<open>&\<close> of the first edge's label reach the XML as they
  are: the node path escapes \<open>&\<close>, \<open><\<close> and \<open>>\<close> only, and the edge path
  escapes the double quote only.
\<close>

theorem export_leaves_reserved_characters:
  "bx_flowElements (jsonToBpmnXml (uuidA 0) exMap) =
     [TaskElement ''n1'' (''Say '' @ [CHR 0x22] @ ''hi'' @ [CHR 0x22]),
      ExclusiveGateway ''n2'' ''A&amp;B'',
      EndEvent ''n3'' ''Done'',
      SequenceFlow ''e1'' ''n1'' ''n2'' (Some ''a<b&c''),
      SequenceFlow ''e3'' ''n1'' ''n3'' None]
   \<and> flowElementXml (nodeElement (exNodes ! 0)) =
       ''<bpmn:task id='' @ quoted ''n1'' @ '' name='' @ [CHR 0x22] @ ''Say '' @ [CHR 0x22]
         @ ''hi'' @ [CHR 0x22] @ [CHR 0x22] @ '' />''
   \<and> CHR 0x22 \<in> set (sanitizedLabel (pn_label (exNodes ! 0)))
   \<and> nameAttr exElbowEdge = Some ''a<b&c''"
  by (simp add: jsonToBpmnXml_def exMap_def exNodes_def exElbowEdge_def exDanglingEdge_def
      exStraightEdge_def nodeElement_def sanitizedLabel_def replaceAll_def sequenceFlow_def
      nodeExists_def nameAttr_def quoted_def)

subsection \<open>Dragging and grid snapping\<close>

lemma Math_round_near: "\<bar>Math_round v - v\<bar> \<le> 1 / 2"
  unfolding Math_round_def by linarith

lemma snapped_grid:
  "\<exists>m n::int. snapped ed p = (of_int m * 10, of_int n * 10)"
  unfolding snapped_def Math_round_def GRID_SIZE_def Let_def by blast

lemma snapped_near:
  "\<bar>fst (snapped ed p) - (fst (toLocalCoordinates ed p) - fst (dragOffset ed))\<bar> \<le> 5
   \<and> \<bar>snd (snapped ed p) - (snd (toLocalCoordinates ed p) - snd (dragOffset ed))\<bar> \<le> 5"
  using Math_round_near [of "(fst (toLocalCoordinates ed p) - fst (dragOffset ed)) / 10"]
    Math_round_near [of "(snd (toLocalCoordinates ed p) - snd (dragOffset ed)) / 10"]
  by (simp add: snapped_def GRID_SIZE_def Let_def field_simps abs_if split: if_splits)

text \<open>
  Claim C5 fails as stated. In the example the drag is in progress before and after a
  pointer move to \<open>(103, 207)\<close>, and the move already stores the snapped position
  \<open>(100, 210)\<close> in the dragged step.
\<close>

theorem snapping_only_at_drag_end_counterexample:
  "\<not> isPanning exVsmDrag \<and> truthyId (draggedId exVsmDrag)
   \<and> truthyId (draggedId (vsm_handleMouseMove exVsmDrag (103, 207)))
   \<and> toLocalCoordinates exVsmDrag (103, 207) = (103, 207)
   \<and> vs_id (vsm_steps (diagram (vsm_handleMouseMove exVsmDrag (103, 207))) ! 2) = ''p1''
   \<and> vs_x (vsm_steps (diagram (vsm_handleMouseMove exVsmDrag (103, 207))) ! 2) = 100
   \<and> vs_y (vsm_steps (diagram (vsm_handleMouseMove exVsmDrag (103, 207))) ! 2) = 210"
  by (simp add: exVsmDrag_def exVsm_def vsm_handleMouseMove_def truthyId_def snapped_def
      toLocalCoordinates_def Math_round_def GRID_SIZE_def)

text \<open>
  Claim C5, amended. While a node is being dragged, every pointer move replaces the
  dragged node's position by the pointer's model position minus the grab offset, each axis
  rounded to the nearest multiple of the 10-unit grid, and the drag stays in progress.
  The pointer-up handler ends the gesture and changes no position. This holds in the
  value-stream editor and in the case editor.
\<close>

theorem snapping_on_every_drag_move:
  fixes ev :: "VSMData Editor" and ec :: "CMMNModel Editor"
  assumes "\<not> isPanning ev" and "draggedId ev = Some i" and "i \<noteq> []"
    and "\<not> isPanning ec" and "draggedId ec = Some j" and "j \<noteq> []"
  shows "vsm_steps (diagram (vsm_handleMouseMove ev p)) =
       map (\<lambda>s. if vs_id s = i
                 then s \<lparr> vs_x := fst (snapped ev p), vs_y := snd (snapped ev p) \<rparr> else s)
         (vsm_steps (diagram ev))
     \<and> cm_nodes (diagram (cmmn_handleMouseMove ec q)) =
       map (\<lambda>n. if cn_id n = j
                 then n \<lparr> cn_x := fst (snapped ec q), cn_y := snd (snapped ec q) \<rparr> else n)
         (cm_nodes (diagram ec))
     \<and> draggedId (vsm_handleMouseMove ev p) = Some i
     \<and> draggedId (cmmn_handleMouseMove ec q) = Some j
     \<and> (\<exists>m n::int. snapped ev p = (of_int m * 10, of_int n * 10))
     \<and> (\<exists>m n::int. snapped ec q = (of_int m * 10, of_int n * 10))
     \<and> \<bar>fst (snapped ev p) - (fst (toLocalCoordinates ev p) - fst (dragOffset ev))\<bar> \<le> 5
     \<and> \<bar>snd (snapped ev p) - (snd (toLocalCoordinates ev p) - snd (dragOffset ev))\<bar> \<le> 5
     \<and> \<bar>fst (snapped ec q) - (fst (toLocalCoordinates ec q) - fst (dragOffset ec))\<bar> \<le> 5
     \<and> \<bar>snd (snapped ec q) - (snd (toLocalCoordinates ec q) - snd (dragOffset ec))\<bar> \<le> 5
     \<and> diagram (handleMouseUp ev) = diagram ev \<and> draggedId (handleMouseUp ev) = None
     \<and> diagram (handleMouseUp ec) = diagram ec \<and> draggedId (handleMouseUp ec) = None"
proof -
  have "vsm_steps (diagram (vsm_handleMouseMove ev p)) =
       map (\<lambda>s. if vs_id s = i
                 then s \<lparr> vs_x := fst (snapped ev p), vs_y := snd (snapped ev p) \<rparr> else s)
         (vsm_steps (diagram ev))"
    using assms(1-3) by (simp add: vsm_handleMouseMove_def truthyId_def)
  moreover have "cm_nodes (diagram (cmmn_handleMouseMove ec q)) =
       map (\<lambda>n. if cn_id n = j
                 then n \<lparr> cn_x := fst (snapped ec q), cn_y := snd (snapped ec q) \<rparr> else n)
         (cm_nodes (diagram ec))"
    using assms(4-6) by (simp add: cmmn_handleMouseMove_def truthyId_def)
  moreover have "draggedId (vsm_handleMouseMove ev p) = Some i"
    using assms(1-3) by (simp add: vsm_handleMouseMove_def truthyId_def)
  moreover have "draggedId (cmmn_handleMouseMove ec q) = Some j"
    using assms(4-6) by (simp add: cmmn_handleMouseMove_def truthyId_def)
  moreover have "diagram (handleMouseUp ev) = diagram ev \<and> draggedId (handleMouseUp ev) = None"
    "diagram (handleMouseUp ec) = diagram ec \<and> draggedId (handleMouseUp ec) = None"
    by (simp_all add: handleMouseUp_def)
  ultimately show ?thesis
    using snapped_grid [of ev p] snapped_grid [of ec q] snapped_near [of ev p]
      snapped_near [of ec q]
    by blast
qed

theorem snapping_on_every_drag_move_witness:
  "\<not> isPanning exVsmDrag \<and> draggedId exVsmDrag = Some ''p1''
   \<and> \<not> isPanning exCmmnDrag \<and> draggedId exCmmnDrag = Some ''st1''
   \<and> map (\<lambda>s. (vs_id s, vs_x s, vs_y s))
        (vsm_steps (diagram (vsm_handleMouseMove exVsmDrag (103, 207))))
       = [(''p2'', 500, 400), (''s1'', 100, 100), (''p1'', 100, 210)]
   \<and> map (\<lambda>n. (cn_id n, cn_x n, cn_y n))
        (cm_nodes (diagram (cmmn_handleMouseMove exCmmnDrag (103, 205))))
       = [(''st1'', 100, 210)]
   \<and> draggedId (handleMouseUp exVsmDrag) = None"
proof -
  have v: "\<not> isPanning exVsmDrag" "draggedId exVsmDrag = Some ''p1''" "''p1'' \<noteq> []"
    and c: "\<not> isPanning exCmmnDrag" "draggedId exCmmnDrag = Some ''st1''" "''st1'' \<noteq> []"
    by (simp_all add: exVsmDrag_def exCmmnDrag_def)
  have sv: "snapped exVsmDrag (103, 207) = (100, 210)"
    and sc: "snapped exCmmnDrag (103, 205) = (100, 210)"
    by (simp_all add: snapped_def toLocalCoordinates_def exVsmDrag_def exCmmnDrag_def
        Math_round_def GRID_SIZE_def)
  note h = snapping_on_every_drag_move [OF v c, of "(103, 207)" "(103, 205)"]
  from h have "vsm_steps (diagram (vsm_handleMouseMove exVsmDrag (103, 207))) =
       map (\<lambda>s. if vs_id s = ''p1''
                 then s \<lparr> vs_x := fst (snapped exVsmDrag (103, 207)),
                          vs_y := snd (snapped exVsmDrag (103, 207)) \<rparr> else s)
         (vsm_steps (diagram exVsmDrag))"
    by blast
  then have a: "map (\<lambda>s. (vs_id s, vs_x s, vs_y s))
        (vsm_steps (diagram (vsm_handleMouseMove exVsmDrag (103, 207))))
       = [(''p2'', 500, 400), (''s1'', 100, 100), (''p1'', 100, 210)]"
    unfolding sv by (simp add: exVsmDrag_def exVsm_def)
  from h have "cm_nodes (diagram (cmmn_handleMouseMove exCmmnDrag (103, 205))) =
       map (\<lambda>n. if cn_id n = ''st1''
                 then n \<lparr> cn_x := fst (snapped exCmmnDrag (103, 205)),
                          cn_y := snd (snapped exCmmnDrag (103, 205)) \<rparr> else n)
         (cm_nodes (diagram exCmmnDrag))"
    by blast
  then have b: "map (\<lambda>n. (cn_id n, cn_x n, cn_y n))
        (cm_nodes (diagram (cmmn_handleMouseMove exCmmnDrag (103, 205))))
       = [(''st1'', 100, 210)]"
    unfolding sc by (simp add: exCmmnDrag_def exCmmn_def)
  from h have "draggedId (handleMouseUp exVsmDrag) = None"
    by blast
  with v c a b show ?thesis
    by blast
qed

subsection \<open>Fit to content on an empty diagram\<close>

text \<open>
  Claim C9 fails as stated. The case editor's \<open>handleFitView\<close> returns at its guard
  when there are no nodes, so a viewport at \<open>(120, -40)\<close> with scale 2 stays as it is.
\<close>

theorem fit_view_empty_identity_counterexample:
  "cm_nodes (diagram exCmmnEmpty) = []
   \<and> viewState (cmmn_handleFitView exCmmnEmpty)
       = \<lparr> view_x = 120, view_y = - 40, view_scale = 2 \<rparr>
   \<and> viewState (cmmn_handleFitView exCmmnEmpty)
       \<noteq> \<lparr> view_x = 0, view_y = 0, view_scale = 1 \<rparr>"
  by (simp add: exCmmnEmpty_def exCmmnDrag_def cmmn_handleFitView_def)

text \<open>
  Claim C9, amended. On a diagram with zero nodes the value-stream editor's fit-to-content
  sets the identity viewport (offsets 0 and scale 1), and the case editor's fit-to-content
  leaves the editor, its viewport included, unchanged.
\<close>

theorem fit_view_empty:
  fixes ev :: "VSMData Editor" and ec :: "CMMNModel Editor"
  shows "(vsm_steps (diagram ev) = [] \<longrightarrow>
           viewState (vsm_handleFitView ev) = \<lparr> view_x = 0, view_y = 0, view_scale = 1 \<rparr>)
       \<and> (cm_nodes (diagram ec) = [] \<longrightarrow> cmmn_handleFitView ec = ec)"
  by (simp add: vsm_handleFitView_def cmmn_handleFitView_def)

theorem fit_view_empty_witness:
  "vsm_steps (diagram exVsmEmpty) = [] \<and> cm_nodes (diagram exCmmnEmpty) = []
   \<and> viewState exVsmEmpty = \<lparr> view_x = 120, view_y = - 40, view_scale = 2 \<rparr>
   \<and> viewState (vsm_handleFitView exVsmEmpty) = \<lparr> view_x = 0, view_y = 0, view_scale = 1 \<rparr>
   \<and> cmmn_handleFitView exCmmnEmpty = exCmmnEmpty"
proof -
  have a: "vsm_steps (diagram exVsmEmpty) = []" and b: "cm_nodes (diagram exCmmnEmpty) = []"
    by (simp_all add: exVsmEmpty_def exCmmnEmpty_def)
  have c: "viewState exVsmEmpty = \<lparr> view_x = 120, view_y = - 40, view_scale = 2 \<rparr>"
    by (simp add: exVsmEmpty_def)
  from fit_view_empty [of exVsmEmpty exCmmnEmpty] a b c show ?thesis
    by blast
qed

subsection \<open>Pointer listeners over the life of an editor\<close>

lemma effectSetup_empty:
  "effectSetup k [] = [(''mousemove'', MouseMoveHandler k), (''mouseup'', MouseUpHandler)]"
  by (simp add: effectSetup_def addEventListener_def)

lemma effectCleanup_pair:
  "effectCleanup k [(''mousemove'', MouseMoveHandler k), (''mouseup'', MouseUpHandler)] = []"
  by (simp add: effectCleanup_def removeEventListener_def)

lemma rerender_pair:
  "rerender deps ed ed' [(''mousemove'', MouseMoveHandler (deps ed)), (''mouseup'', MouseUpHandler)]
     = [(''mousemove'', MouseMoveHandler (deps ed')), (''mouseup'', MouseUpHandler)]"
  by (simp add: rerender_def effectCleanup_pair effectSetup_empty)

lemma renders_pair:
  "renders deps ed eds [(''mousemove'', MouseMoveHandler (deps ed)), (''mouseup'', MouseUpHandler)]
     = (last (ed # eds),
        [(''mousemove'', MouseMoveHandler (deps (last (ed # eds)))), (''mouseup'', MouseUpHandler)])"
proof (induction eds arbitrary: ed)
  case Nil
  show ?case by simp
next
  case (Cons e eds)
  show ?case
    using Cons.IH [of e] by (simp add: rerender_pair)
qed

lemma listeners_while_mounted:
  "snd (renders deps ed eds (mount deps ed [])) =
      [(''mousemove'', MouseMoveHandler (deps (last (ed # eds)))), (''mouseup'', MouseUpHandler)]
   \<and> unmount deps (fst (renders deps ed eds (mount deps ed [])))
         (snd (renders deps ed eds (mount deps ed []))) = []"
  by (simp add: mount_def effectSetup_empty renders_pair unmount_def effectCleanup_pair
      del: last.simps)

text \<open>
  Claim C6 fails as stated. Mounting an editor that is neither panning nor dragging
  registers both listeners: the effect's body does not look at the interaction state.
\<close>

theorem listeners_only_during_gesture_counterexample:
  "\<not> isPanning exVsmIdle \<and> draggedId exVsmIdle = None
   \<and> mount vsm_deps exVsmIdle [] =
       [(''mousemove'', MouseMoveHandler (vsm_deps exVsmIdle)), (''mouseup'', MouseUpHandler)]"
  by (simp add: mount_def effectSetup_empty) (simp add: exVsmIdle_def exVsmDrag_def)

text \<open>
  Claim C6, amended. From mount on, through any sequence of states the editor is rendered
  in (idle, panning or dragging), the window holds exactly one pointer-move listener, the
  current \<open>handleMouseMove\<close>, and one pointer-up listener; removing the component
  detaches both. This holds for the value-stream editor and for the case editor.
\<close>

theorem listeners_for_mounted_lifetime:
  fixes ev :: "VSMData Editor" and ec :: "CMMNModel Editor"
  shows "snd (renders vsm_deps ev evs (mount vsm_deps ev [])) =
       [(''mousemove'', MouseMoveHandler (vsm_deps (last (ev # evs)))),
        (''mouseup'', MouseUpHandler)]
     \<and> unmount vsm_deps (fst (renders vsm_deps ev evs (mount vsm_deps ev [])))
         (snd (renders vsm_deps ev evs (mount vsm_deps ev []))) = []
     \<and> snd (renders cmmn_deps ec ecs (mount cmmn_deps ec [])) =
       [(''mousemove'', MouseMoveHandler (cmmn_deps (last (ec # ecs)))),
        (''mouseup'', MouseUpHandler)]
     \<and> unmount cmmn_deps (fst (renders cmmn_deps ec ecs (mount cmmn_deps ec [])))
         (snd (renders cmmn_deps ec ecs (mount cmmn_deps ec []))) = []"
  using listeners_while_mounted [of vsm_deps ev evs] listeners_while_mounted [of cmmn_deps ec ecs]
  by blast

subsection \<open>The scope lifts and their identifiers\<close>

lemma nodeShapeOf_sipocNode:
  "nodeShapeOf (sipocNode i t l px) = (t, l, px, 250, Some sipocMetrics)"
  by (simp add: nodeShapeOf_def sipocNode_def)

lemma stepShapeOf_mkStep: "stepShapeOf (mkStep i n r px py) = (n, r, px, py, Some blankData)"
  by (simp add: stepShapeOf_def mkStep_def)

lemma bpmnLoopBody_sel:
  "bl_nodes (bpmnLoopBody u p st)
     = bl_nodes st @ [sipocNode (''Task_'' @ take 5 (u (bl_calls st))) TASK p (bl_x st)]"
  "bl_edges (bpmnLoopBody u p st)
     = bl_edges st @ [sipocEdge (bl_prevId st) (''Task_'' @ take 5 (u (bl_calls st)))]"
  "bl_x (bpmnLoopBody u p st) = bl_x st + 180"
  "bl_prevId (bpmnLoopBody u p st) = ''Task_'' @ take 5 (u (bl_calls st))"
  "bl_calls (bpmnLoopBody u p st) = bl_calls st + 1"
  by (simp_all add: bpmnLoopBody_def Let_def)

lemma vsmLoopBody_sel:
  "vl_steps (vsmLoopBody u p st)
     = vl_steps st @ [mkStep (u (vl_calls st)) p Process (vl_x st) 400]"
  "vl_x (vsmLoopBody u p st) = vl_x st + 200"
  "vl_prevProcessId (vsmLoopBody u p st) = Some (u (vl_calls st))"
  "map vc_type (vl_connectors (vsmLoopBody u p st))
     = map vc_type (vl_connectors st) @ (if truthyId (vl_prevProcessId st) then [Push] else [])"
  by (simp_all add: vsmLoopBody_def Let_def truthyId_def split: option.splits)

lemma bpmnLoop_up_to_ids:
  assumes "bl_x st1 = bl_x st2"
    and "map nodeShapeOf (bl_nodes st1) = map nodeShapeOf (bl_nodes st2)"
    and "map pe_label (bl_edges st1) = map pe_label (bl_edges st2)"
  shows "bl_x (fold (bpmnLoopBody u1) ps st1) = bl_x (fold (bpmnLoopBody u2) ps st2)
     \<and> map nodeShapeOf (bl_nodes (fold (bpmnLoopBody u1) ps st1))
         = map nodeShapeOf (bl_nodes (fold (bpmnLoopBody u2) ps st2))
     \<and> map pe_label (bl_edges (fold (bpmnLoopBody u1) ps st1))
         = map pe_label (bl_edges (fold (bpmnLoopBody u2) ps st2))"
  using assms
proof (induction ps arbitrary: st1 st2)
  case Nil
  then show ?case by simp
next
  case (Cons p ps)
  have "bl_x (bpmnLoopBody u1 p st1) = bl_x (bpmnLoopBody u2 p st2)"
    "map nodeShapeOf (bl_nodes (bpmnLoopBody u1 p st1))
       = map nodeShapeOf (bl_nodes (bpmnLoopBody u2 p st2))"
    "map pe_label (bl_edges (bpmnLoopBody u1 p st1))
       = map pe_label (bl_edges (bpmnLoopBody u2 p st2))"
    using Cons.prems
    by (simp_all add: bpmnLoopBody_sel nodeShapeOf_sipocNode sipocEdge_def)
  from Cons.IH [OF this] show ?case
    by simp
qed

lemma vsmLoop_up_to_ids:
  assumes "\<forall>k. u1 k \<noteq> [] \<and> u2 k \<noteq> []"
    and "vl_x st1 = vl_x st2"
    and "map stepShapeOf (vl_steps st1) = map stepShapeOf (vl_steps st2)"
    and "map vc_type (vl_connectors st1) = map vc_type (vl_connectors st2)"
    and "truthyId (vl_prevProcessId st1) = truthyId (vl_prevProcessId st2)"
  shows "vl_x (fold (vsmLoopBody u1) ps st1) = vl_x (fold (vsmLoopBody u2) ps st2)
     \<and> map stepShapeOf (vl_steps (fold (vsmLoopBody u1) ps st1))
         = map stepShapeOf (vl_steps (fold (vsmLoopBody u2) ps st2))
     \<and> map vc_type (vl_connectors (fold (vsmLoopBody u1) ps st1))
         = map vc_type (vl_connectors (fold (vsmLoopBody u2) ps st2))
     \<and> truthyId (vl_prevProcessId (fold (vsmLoopBody u1) ps st1))
         = truthyId (vl_prevProcessId (fold (vsmLoopBody u2) ps st2))"
  using assms(2-5)
proof (induction ps arbitrary: st1 st2)
  case Nil
  then show ?case by simp
next
  case (Cons p ps)
  have "vl_x (vsmLoopBody u1 p st1) = vl_x (vsmLoopBody u2 p st2)"
    "map stepShapeOf (vl_steps (vsmLoopBody u1 p st1))
       = map stepShapeOf (vl_steps (vsmLoopBody u2 p st2))"
    "map vc_type (vl_connectors (vsmLoopBody u1 p st1))
       = map vc_type (vl_connectors (vsmLoopBody u2 p st2))"
    "truthyId (vl_prevProcessId (vsmLoopBody u1 p st1))
       = truthyId (vl_prevProcessId (vsmLoopBody u2 p st2))"
    using Cons.prems assms(1)
    by (simp_all add: vsmLoopBody_sel stepShapeOf_mkStep) (simp add: truthyId_def)
  from Cons.IH [OF this] show ?case
    by simp
qed

lemma lifts_shapes_agree:
  assumes "\<forall>k. u1 k \<noteq> [] \<and> u2 k \<noteq> []"
  shows "map nodeShapeOf (pm_nodes (convertSipocToBpmn u1 sipoc))
       = map nodeShapeOf (pm_nodes (convertSipocToBpmn u2 sipoc))
     \<and> map pe_label (pm_edges (convertSipocToBpmn u1 sipoc))
       = map pe_label (pm_edges (convertSipocToBpmn u2 sipoc))
     \<and> map stepShapeOf (vsm_steps (convertSipocToVsm u1 sipoc))
       = map stepShapeOf (vsm_steps (convertSipocToVsm u2 sipoc))
     \<and> map vc_type (vsm_connectors (convertSipocToVsm u1 sipoc))
       = map vc_type (vsm_connectors (convertSipocToVsm u2 sipoc))
     \<and> (convertSipocToVsm u1 sipoc) \<lparr> vsm_steps := [], vsm_connectors := [] \<rparr>
       = (convertSipocToVsm u2 sipoc) \<lparr> vsm_steps := [], vsm_connectors := [] \<rparr>
     \<and> map pn_id (pm_nodes (convertVsmToBpmn vsm))
       = ''StartEvent_1'' # map (\<lambda>s. ''Task_'' @ vs_id s) (processSteps vsm) @ [''EndEvent_1'']"
proof -
  define ps where "ps = (if length (process sipoc) > 0 then process sipoc else [''New Task''])"
  define b0 where "b0 = \<lparr> bl_nodes = [sipocNode ''StartEvent_SIPOC'' START
        (case inputs sipoc of [] \<Rightarrow> ''Start'' | i # _ \<Rightarrow> ''Input: '' @ i) 150],
      bl_edges = [], bl_x = 150 + 180, bl_prevId = ''StartEvent_SIPOC'', bl_calls = 0 \<rparr>"
  have bp: "bl_x (fold (bpmnLoopBody u1) ps b0) = bl_x (fold (bpmnLoopBody u2) ps b0)
     \<and> map nodeShapeOf (bl_nodes (fold (bpmnLoopBody u1) ps b0))
         = map nodeShapeOf (bl_nodes (fold (bpmnLoopBody u2) ps b0))
     \<and> map pe_label (bl_edges (fold (bpmnLoopBody u1) ps b0))
         = map pe_label (bl_edges (fold (bpmnLoopBody u2) ps b0))"
    by (rule bpmnLoop_up_to_ids) simp_all
  have beq: "convertSipocToBpmn u sipoc =
      \<lparr> pm_nodes = bl_nodes (fold (bpmnLoopBody u) ps b0)
          @ [sipocNode ''EndEvent_SIPOC'' END
               (case outputs sipoc of [] \<Rightarrow> ''End'' | out # _ \<Rightarrow> ''Output: '' @ out)
               (bl_x (fold (bpmnLoopBody u) ps b0))],
        pm_edges = bl_edges (fold (bpmnLoopBody u) ps b0)
          @ [sipocEdge (bl_prevId (fold (bpmnLoopBody u) ps b0)) ''EndEvent_SIPOC''] \<rparr>" for u
    unfolding convertSipocToBpmn_def Let_def ps_def b0_def by simp
  have bpmn: "map nodeShapeOf (pm_nodes (convertSipocToBpmn u1 sipoc))
       = map nodeShapeOf (pm_nodes (convertSipocToBpmn u2 sipoc))
     \<and> map pe_label (pm_edges (convertSipocToBpmn u1 sipoc))
       = map pe_label (pm_edges (convertSipocToBpmn u2 sipoc))"
    unfolding beq using bp
    by (simp add: nodeShapeOf_sipocNode sipocEdge_def)
  define qs where "qs = (if length (process sipoc) > 0 then process sipoc
      else [''Process Step 1''])"
  define v0 where "v0 = (\<lambda>u::nat \<Rightarrow> string.
      \<lparr> vl_steps = [mkStep (u 0) (firstOr (suppliers sipoc) ''Supplier'') Supplier 100 100,
                    mkStep (u 1) ''Production Control'' ProductionControl 450 100],
        vl_connectors = [], vl_x = 100, vl_prevProcessId = None, vl_calls = 2 \<rparr>)"
  have vp: "vl_x (fold (vsmLoopBody u1) qs (v0 u1)) = vl_x (fold (vsmLoopBody u2) qs (v0 u2))
     \<and> map stepShapeOf (vl_steps (fold (vsmLoopBody u1) qs (v0 u1)))
         = map stepShapeOf (vl_steps (fold (vsmLoopBody u2) qs (v0 u2)))
     \<and> map vc_type (vl_connectors (fold (vsmLoopBody u1) qs (v0 u1)))
         = map vc_type (vl_connectors (fold (vsmLoopBody u2) qs (v0 u2)))
     \<and> truthyId (vl_prevProcessId (fold (vsmLoopBody u1) qs (v0 u1)))
         = truthyId (vl_prevProcessId (fold (vsmLoopBody u2) qs (v0 u2)))"
    by (rule vsmLoop_up_to_ids [OF assms]) (simp_all add: v0_def stepShapeOf_mkStep)
  have veq: "vsm_steps (convertSipocToVsm u sipoc) =
        vl_steps (fold (vsmLoopBody u) qs (v0 u))
          @ [mkStep (u (vl_calls (fold (vsmLoopBody u) qs (v0 u))))
               (firstOr (customers sipoc) ''Customer'') Customer
               (max (vl_x (fold (vsmLoopBody u) qs (v0 u))) 800) 100]"
    "vsm_connectors (convertSipocToVsm u sipoc) =
        vl_connectors (fold (vsmLoopBody u) qs (v0 u))
          @ (case vl_prevProcessId (fold (vsmLoopBody u) qs (v0 u)) of
               Some prev \<Rightarrow>
                 if prev \<noteq> [] then
                   [\<lparr> vc_id = u (vl_calls (fold (vsmLoopBody u) qs (v0 u)) + 1), vc_source = prev,
                      vc_target = u (vl_calls (fold (vsmLoopBody u) qs (v0 u))),
                      vc_type = TransportArrow \<rparr>]
                 else []
             | None \<Rightarrow> [])" for u
    unfolding convertSipocToVsm_def Let_def qs_def v0_def by simp_all
  have vsm: "map stepShapeOf (vsm_steps (convertSipocToVsm u1 sipoc))
       = map stepShapeOf (vsm_steps (convertSipocToVsm u2 sipoc))
     \<and> map vc_type (vsm_connectors (convertSipocToVsm u1 sipoc))
       = map vc_type (vsm_connectors (convertSipocToVsm u2 sipoc))"
    unfolding veq using vp
    by (auto simp: stepShapeOf_mkStep truthyId_def split: option.splits)
  have rest: "(convertSipocToVsm u1 sipoc) \<lparr> vsm_steps := [], vsm_connectors := [] \<rparr>
       = (convertSipocToVsm u2 sipoc) \<lparr> vsm_steps := [], vsm_connectors := [] \<rparr>"
    by (simp add: convertSipocToVsm_def Let_def)
  have ids: "map pn_id (pm_nodes (convertVsmToBpmn vsm))
       = ''StartEvent_1'' # map (\<lambda>s. ''Task_'' @ vs_id s) (processSteps vsm) @ [''EndEvent_1'']"
    by (simp add: convertVsmToBpmn_closed ids_taskNodes startNode_def endNode_def)
  from bpmn vsm rest ids show ?thesis
    by blast
qed

lemma consecutive_snoc:
  "ids \<noteq> [] \<Longrightarrow> consecutive (ids @ [i]) = consecutive ids @ [(last ids, i)]"
proof -
  assume ne: "ids \<noteq> []"
  have "zip (butlast ids @ [last ids]) (tl ids @ [i]) = zip (butlast ids) (tl ids) @ [(last ids, i)]"
    by (simp add: zip_append)
  with ne show ?thesis
    by (simp add: consecutive_def butlast_append)
qed

lemma chainEdges_ids:
  "map pe_id (chainEdges prev ids)
     = map (\<lambda>e. ''Flow_'' @ pe_source e @ ''_'' @ pe_target e) (chainEdges prev ids)"
  by (induction ids arbitrary: prev) (simp_all add: flowEdge_def)

lemma flowChain_convertVsmToBpmn: "flowChain (convertVsmToBpmn vsm)"
  by (simp add: flowChain_def convertVsmToBpmn_closed chainEdges_ids edgeEnds_def [abs_def]
      chainEdges_ends ids_taskNodes startNode_def endNode_def consecutive_def butlast_append)

lemma edgeEnds_sipocEdge: "edgeEnds (sipocEdge a b) = (a, b)"
  by (simp add: edgeEnds_def sipocEdge_def)

lemma sipocEdge_sel:
  "pe_id (sipocEdge a b) = ''Flow_'' @ a @ ''_'' @ b" "pe_source (sipocEdge a b) = a"
  "pe_target (sipocEdge a b) = b"
  by (simp_all add: sipocEdge_def)

lemma pn_id_sipocNode: "pn_id (sipocNode i t l px) = i"
  by (simp add: sipocNode_def)

lemma bpmnLoop_chain:
  assumes "bl_nodes st \<noteq> []"
    and "bl_prevId st = pn_id (last (bl_nodes st))"
    and "map edgeEnds (bl_edges st) = consecutive (map pn_id (bl_nodes st))"
    and "map pe_id (bl_edges st)
          = map (\<lambda>e. ''Flow_'' @ pe_source e @ ''_'' @ pe_target e) (bl_edges st)"
  shows "bl_nodes (fold (bpmnLoopBody u) ps st) \<noteq> []
     \<and> bl_prevId (fold (bpmnLoopBody u) ps st) = pn_id (last (bl_nodes (fold (bpmnLoopBody u) ps st)))
     \<and> map edgeEnds (bl_edges (fold (bpmnLoopBody u) ps st))
         = consecutive (map pn_id (bl_nodes (fold (bpmnLoopBody u) ps st)))
     \<and> map pe_id (bl_edges (fold (bpmnLoopBody u) ps st))
         = map (\<lambda>e. ''Flow_'' @ pe_source e @ ''_'' @ pe_target e)
             (bl_edges (fold (bpmnLoopBody u) ps st))"
  using assms
proof (induction ps arbitrary: st)
  case Nil
  then show ?case by simp
next
  case (Cons p ps)
  let ?st = "bpmnLoopBody u p st"
  have "bl_nodes ?st \<noteq> []" "bl_prevId ?st = pn_id (last (bl_nodes ?st))"
    by (simp_all add: bpmnLoopBody_sel pn_id_sipocNode)
  moreover have "map edgeEnds (bl_edges ?st) = consecutive (map pn_id (bl_nodes ?st))"
    using Cons.prems(1-3)
    by (simp add: bpmnLoopBody_sel consecutive_snoc last_map edgeEnds_sipocEdge
        pn_id_sipocNode)
  moreover have "map pe_id (bl_edges ?st)
          = map (\<lambda>e. ''Flow_'' @ pe_source e @ ''_'' @ pe_target e) (bl_edges ?st)"
    using Cons.prems(4) by (simp add: bpmnLoopBody_sel sipocEdge_sel)
  ultimately show ?case
    using Cons.IH [of ?st] by simp
qed

lemma flowChain_convertSipocToBpmn: "flowChain (convertSipocToBpmn u sipoc)"
proof -
  define ps where "ps = (if length (process sipoc) > 0 then process sipoc else [''New Task''])"
  define b0 where "b0 = \<lparr> bl_nodes = [sipocNode ''StartEvent_SIPOC'' START
        (case inputs sipoc of [] \<Rightarrow> ''Start'' | i # _ \<Rightarrow> ''Input: '' @ i) 150],
      bl_edges = [], bl_x = 150 + 180, bl_prevId = ''StartEvent_SIPOC'', bl_calls = 0 \<rparr>"
  define st where "st = fold (bpmnLoopBody u) ps b0"
  have beq: "convertSipocToBpmn u sipoc =
      \<lparr> pm_nodes = bl_nodes st
          @ [sipocNode ''EndEvent_SIPOC'' END
               (case outputs sipoc of [] \<Rightarrow> ''End'' | out # _ \<Rightarrow> ''Output: '' @ out) (bl_x st)],
        pm_edges = bl_edges st @ [sipocEdge (bl_prevId st) ''EndEvent_SIPOC''] \<rparr>"
    unfolding convertSipocToBpmn_def Let_def ps_def b0_def st_def by simp
  have inv: "bl_nodes st \<noteq> [] \<and> bl_prevId st = pn_id (last (bl_nodes st))
     \<and> map edgeEnds (bl_edges st) = consecutive (map pn_id (bl_nodes st))
     \<and> map pe_id (bl_edges st)
         = map (\<lambda>e. ''Flow_'' @ pe_source e @ ''_'' @ pe_target e) (bl_edges st)"
    unfolding st_def
    by (rule bpmnLoop_chain) (simp_all add: b0_def pn_id_sipocNode consecutive_def)
  then show ?thesis
    unfolding beq flowChain_def
    by (simp add: consecutive_snoc last_map edgeEnds_sipocEdge pn_id_sipocNode sipocEdge_sel)
qed

lemma connectorEnds_sel: "connectorEnds \<lparr> vc_id = i, vc_source = a, vc_target = b, vc_type = t \<rparr> = (a, b)"
  by (simp add: connectorEnds_def)

lemma vs_id_mkStep: "vs_id (mkStep i n r px py) = i"
  by (simp add: mkStep_def)

lemma vsmLoopBody_ends:
  "map connectorEnds (vl_connectors (vsmLoopBody u p st))
     = map connectorEnds (vl_connectors st)
       @ (if truthyId (vl_prevProcessId st)
          then [(the (vl_prevProcessId st), u (vl_calls st))] else [])"
  by (simp add: vsmLoopBody_def Let_def truthyId_def connectorEnds_sel split: option.splits)

lemma vsmLoop_chain:
  assumes ne: "\<forall>k. u k \<noteq> []"
    and "2 \<le> length (vl_steps st)"
    and "map connectorEnds (vl_connectors st) = consecutive (drop 2 (map vs_id (vl_steps st)))"
    and "vl_prevProcessId st
          = (if drop 2 (vl_steps st) = [] then None else Some (vs_id (last (vl_steps st))))"
    and "[] \<notin> set (drop 2 (map vs_id (vl_steps st)))"
  shows "2 \<le> length (vl_steps (fold (vsmLoopBody u) ps st))
     \<and> map connectorEnds (vl_connectors (fold (vsmLoopBody u) ps st))
         = consecutive (drop 2 (map vs_id (vl_steps (fold (vsmLoopBody u) ps st))))
     \<and> vl_prevProcessId (fold (vsmLoopBody u) ps st)
         = (if drop 2 (vl_steps (fold (vsmLoopBody u) ps st)) = [] then None
            else Some (vs_id (last (vl_steps (fold (vsmLoopBody u) ps st)))))
     \<and> [] \<notin> set (drop 2 (map vs_id (vl_steps (fold (vsmLoopBody u) ps st))))
     \<and> length (vl_steps (fold (vsmLoopBody u) ps st)) = length (vl_steps st) + length ps"
  using assms(2-5)
proof (induction ps arbitrary: st)
  case Nil
  then show ?case by simp
next
  case (Cons p ps)
  let ?st = "vsmLoopBody u p st"
  let ?ids = "map vs_id (vl_steps st)"
  have pid: "u (vl_calls st) \<noteq> []"
    using ne by simp
  have len: "2 \<le> length (vl_steps ?st)"
    using Cons.prems(1) by (simp add: vsmLoopBody_sel)
  have ids': "drop 2 (map vs_id (vl_steps ?st)) = drop 2 ?ids @ [u (vl_calls st)]"
    using Cons.prems(1) by (simp add: vsmLoopBody_sel vs_id_mkStep)
  have ne': "drop 2 (vl_steps ?st) \<noteq> []"
    using Cons.prems(1) by (simp add: vsmLoopBody_sel)
  have prev': "vl_prevProcessId ?st = Some (vs_id (last (vl_steps ?st)))"
    by (simp add: vsmLoopBody_sel vs_id_mkStep)
  have nonempty': "[] \<notin> set (drop 2 (map vs_id (vl_steps ?st)))"
    using Cons.prems(4) pid unfolding ids' by simp
  have ends': "map connectorEnds (vl_connectors ?st) = consecutive (drop 2 (map vs_id (vl_steps ?st)))"
  proof (cases "drop 2 (vl_steps st) = []")
    case True
    then have "drop 2 ?ids = []"
      by (simp add: drop_map)
    with True Cons.prems(2,3) show ?thesis
      unfolding ids' by (simp add: vsmLoopBody_ends truthyId_def consecutive_def)
  next
    case False
    then have d: "drop 2 ?ids \<noteq> []"
      by (simp add: drop_map)
    have l: "last (drop 2 ?ids) = vs_id (last (vl_steps st))"
      using False by (simp add: drop_map last_map last_drop)
    have "vs_id (last (vl_steps st)) \<in> set (drop 2 ?ids)"
      using d l by (metis last_in_set)
    with Cons.prems(4) have t: "vs_id (last (vl_steps st)) \<noteq> []"
      by metis
    with False Cons.prems(2,3) show ?thesis
      unfolding ids' by (simp add: vsmLoopBody_ends truthyId_def consecutive_snoc [OF d] l)
  qed
  have grow: "length (vl_steps ?st) = length (vl_steps st) + 1"
    by (simp add: vsmLoopBody_sel)
  from Cons.IH [of ?st, OF len ends' _ nonempty'] ne' prev' grow
  show ?case
    by simp
qed

lemma connectorChain_convertSipocToVsm:
  assumes ne: "\<forall>k. u k \<noteq> []"
  shows "connectorChain (convertSipocToVsm u sipoc)"
proof -
  define qs where "qs = (if length (process sipoc) > 0 then process sipoc
      else [''Process Step 1''])"
  define v0 where "v0 =
      \<lparr> vl_steps = [mkStep (u 0) (firstOr (suppliers sipoc) ''Supplier'') Supplier 100 100,
                    mkStep (u 1) ''Production Control'' ProductionControl 450 100],
        vl_connectors = [], vl_x = 100, vl_prevProcessId = None, vl_calls = 2 \<rparr>"
  define st where "st = fold (vsmLoopBody u) qs v0"
  have qne: "qs \<noteq> []"
    by (simp add: qs_def)
  have veq: "vsm_steps (convertSipocToVsm u sipoc) =
        vl_steps st @ [mkStep (u (vl_calls st)) (firstOr (customers sipoc) ''Customer'') Customer
               (max (vl_x st) 800) 100]"
    "map connectorEnds (vsm_connectors (convertSipocToVsm u sipoc)) =
        map connectorEnds (vl_connectors st)
          @ (if truthyId (vl_prevProcessId st)
             then [(the (vl_prevProcessId st), u (vl_calls st))] else [])"
    unfolding convertSipocToVsm_def Let_def qs_def v0_def st_def
    by (simp_all add: truthyId_def connectorEnds_sel split: option.splits)
  have inv: "2 \<le> length (vl_steps st)
     \<and> map connectorEnds (vl_connectors st) = consecutive (drop 2 (map vs_id (vl_steps st)))
     \<and> vl_prevProcessId st
         = (if drop 2 (vl_steps st) = [] then None else Some (vs_id (last (vl_steps st))))
     \<and> [] \<notin> set (drop 2 (map vs_id (vl_steps st)))
     \<and> length (vl_steps st) = length (vl_steps v0) + length qs"
    unfolding st_def
    by (rule vsmLoop_chain [OF ne]) (simp_all add: v0_def consecutive_def)
  let ?ids = "map vs_id (vl_steps st)"
  from inv qne have d0: "drop 2 (vl_steps st) \<noteq> []"
    by (simp add: v0_def)
  then have d: "drop 2 ?ids \<noteq> []"
    by (simp add: drop_map)
  have l: "last (drop 2 ?ids) = vs_id (last (vl_steps st))"
    using d0 by (simp add: drop_map last_map last_drop)
  have "vs_id (last (vl_steps st)) \<in> set (drop 2 ?ids)"
    using d l by (metis last_in_set)
  with inv have t: "vs_id (last (vl_steps st)) \<noteq> []"
    by metis
  have prev: "vl_prevProcessId st = Some (vs_id (last (vl_steps st)))"
    using inv d0 by simp
  have ids': "drop 2 (map vs_id (vsm_steps (convertSipocToVsm u sipoc)))
      = drop 2 ?ids @ [u (vl_calls st)]"
    using inv by (simp add: veq vs_id_mkStep)
  show ?thesis
    unfolding connectorChain_def veq(2) ids' consecutive_snoc [OF d] l
    using inv by (simp add: prev truthyId_def t)
qed

lemma bpmnLoop_agree:
  "(\<forall>k. k < bl_calls st + length ps \<longrightarrow> u1 k = u2 k)
     \<Longrightarrow> fold (bpmnLoopBody u1) ps st = fold (bpmnLoopBody u2) ps st"
proof (induction ps arbitrary: st)
  case Nil
  show ?case by simp
next
  case (Cons p ps)
  have b: "bpmnLoopBody u1 p st = bpmnLoopBody u2 p st"
    using Cons.prems by (simp add: bpmnLoopBody_def)
  have "fold (bpmnLoopBody u1) ps (bpmnLoopBody u2 p st)
      = fold (bpmnLoopBody u2) ps (bpmnLoopBody u2 p st)"
    using Cons.prems by (intro Cons.IH) (simp add: bpmnLoopBody_sel)
  then show ?case
    by (simp add: b)
qed

lemma vsmLoopBody_calls: "vl_calls (vsmLoopBody u p st) \<le> vl_calls st + 2"
  by (simp add: vsmLoopBody_def Let_def split: option.splits)

lemma vsmLoop_agree:
  "(\<forall>k. k < vl_calls st + 2 * length ps \<longrightarrow> u1 k = u2 k)
     \<Longrightarrow> fold (vsmLoopBody u1) ps st = fold (vsmLoopBody u2) ps st
       \<and> vl_calls (fold (vsmLoopBody u2) ps st) \<le> vl_calls st + 2 * length ps"
proof (induction ps arbitrary: st)
  case Nil
  show ?case by simp
next
  case (Cons p ps)
  have u: "u1 (vl_calls st) = u2 (vl_calls st)" "u1 (vl_calls st + 1) = u2 (vl_calls st + 1)"
    using Cons.prems by simp_all
  have b: "vsmLoopBody u1 p st = vsmLoopBody u2 p st"
    unfolding vsmLoopBody_def Let_def u by simp
  have c: "vl_calls (vsmLoopBody u2 p st) \<le> vl_calls st + 2"
    by (rule vsmLoopBody_calls)
  have "fold (vsmLoopBody u1) ps (vsmLoopBody u2 p st)
      = fold (vsmLoopBody u2) ps (vsmLoopBody u2 p st)
     \<and> vl_calls (fold (vsmLoopBody u2) ps (vsmLoopBody u2 p st))
        \<le> vl_calls (vsmLoopBody u2 p st) + 2 * length ps"
    using Cons.prems c by (intro Cons.IH) simp
  with c show ?case
    by (simp add: b)
qed

text \<open>
  Claim C4 fails as stated. Two invocations of a scope lift on the same scope diagram
  draw different identifiers from \<open>crypto.randomUUID()\<close>, and the two outputs differ
  in their node ids.
\<close>

theorem lifts_deterministic_counterexample:
  "convertSipocToBpmn uuidA exSipoc \<noteq> convertSipocToBpmn uuidB exSipoc
   \<and> convertSipocToVsm uuidA exSipoc \<noteq> convertSipocToVsm uuidB exSipoc
   \<and> pn_id (pm_nodes (convertSipocToBpmn uuidA exSipoc) ! 1) = ''Task_a-4e5''
   \<and> pn_id (pm_nodes (convertSipocToBpmn uuidB exSipoc) ! 1) = ''Task_b-4e5''
   \<and> vs_id (vsm_steps (convertSipocToVsm uuidA exSipoc) ! 0) = ''a-4e5f-8a9b''
   \<and> vs_id (vsm_steps (convertSipocToVsm uuidB exSipoc) ! 0) = ''b-4e5f-8a9b''"
proof -
  have a: "pn_id (pm_nodes (convertSipocToBpmn uuidA exSipoc) ! 1) = ''Task_a-4e5''"
    and b: "pn_id (pm_nodes (convertSipocToBpmn uuidB exSipoc) ! 1) = ''Task_b-4e5''"
    by (simp_all add: convertSipocToBpmn_def exSipoc_def Let_def bpmnLoopBody_def uuidA_def
        uuidB_def sipocNode_def)
  have c: "vs_id (vsm_steps (convertSipocToVsm uuidA exSipoc) ! 0) = ''a-4e5f-8a9b''"
    and d: "vs_id (vsm_steps (convertSipocToVsm uuidB exSipoc) ! 0) = ''b-4e5f-8a9b''"
    by (simp_all add: convertSipocToVsm_def exSipoc_def Let_def vsmLoopBody_sel uuidA_def
        uuidB_def mkStep_def nth_append)
  from a b have "convertSipocToBpmn uuidA exSipoc \<noteq> convertSipocToBpmn uuidB exSipoc"
    by auto
  moreover from c d have "convertSipocToVsm uuidA exSipoc \<noteq> convertSipocToVsm uuidB exSipoc"
    by auto
  ultimately show ?thesis
    using a b c d by blast
qed

text \<open>
  Claim C4, amended. The lifts take the source diagram and nothing of an editor's state.
  The value-stream to execution-flow lift derives every node id and every edge id from the
  source's step ids. The two scope lifts draw node and connector ids from the random
  identifier source, and the scope diagram and the identifiers drawn determine their
  output: two invocations that draw the same identifiers return the same diagram, and two
  invocations that draw different ones return diagrams that differ in those ids only. They
  have the same nodes in the same order with the same kinds, labels, positions and
  metrics, the same edge labels, connector types and totals, and the same wiring: each
  edge joins a node to the next one of the node list and is named after the two, and each
  connector joins a process step to the step after it.
\<close>

theorem lifts_equal_up_to_ids:
  assumes "\<forall>k. u1 k \<noteq> [] \<and> u2 k \<noteq> []"
  shows "map nodeShapeOf (pm_nodes (convertSipocToBpmn u1 sipoc))
       = map nodeShapeOf (pm_nodes (convertSipocToBpmn u2 sipoc))
     \<and> map pe_label (pm_edges (convertSipocToBpmn u1 sipoc))
       = map pe_label (pm_edges (convertSipocToBpmn u2 sipoc))
     \<and> flowChain (convertSipocToBpmn u1 sipoc) \<and> flowChain (convertSipocToBpmn u2 sipoc)
     \<and> map stepShapeOf (vsm_steps (convertSipocToVsm u1 sipoc))
       = map stepShapeOf (vsm_steps (convertSipocToVsm u2 sipoc))
     \<and> map vc_type (vsm_connectors (convertSipocToVsm u1 sipoc))
       = map vc_type (vsm_connectors (convertSipocToVsm u2 sipoc))
     \<and> connectorChain (convertSipocToVsm u1 sipoc) \<and> connectorChain (convertSipocToVsm u2 sipoc)
     \<and> (convertSipocToVsm u1 sipoc) \<lparr> vsm_steps := [], vsm_connectors := [] \<rparr>
       = (convertSipocToVsm u2 sipoc) \<lparr> vsm_steps := [], vsm_connectors := [] \<rparr>
     \<and> ((\<forall>k. k < max 1 (length (process sipoc)) \<longrightarrow> u1 k = u2 k)
          \<longrightarrow> convertSipocToBpmn u1 sipoc = convertSipocToBpmn u2 sipoc)
     \<and> ((\<forall>k. k < 2 * max 1 (length (process sipoc)) + 4 \<longrightarrow> u1 k = u2 k)
          \<longrightarrow> convertSipocToVsm u1 sipoc = convertSipocToVsm u2 sipoc)
     \<and> map pn_id (pm_nodes (convertVsmToBpmn vsm))
       = ''StartEvent_1'' # map (\<lambda>s. ''Task_'' @ vs_id s) (processSteps vsm) @ [''EndEvent_1'']
     \<and> flowChain (convertVsmToBpmn vsm)"
proof -
  note shapes = lifts_shapes_agree [OF assms, of sipoc vsm]
  have ne1: "\<forall>k. u1 k \<noteq> []" and ne2: "\<forall>k. u2 k \<noteq> []"
    using assms by simp_all
  have agreeB: "convertSipocToBpmn u1 sipoc = convertSipocToBpmn u2 sipoc"
    if a: "\<forall>k. k < max 1 (length (process sipoc)) \<longrightarrow> u1 k = u2 k"
  proof -
    define ps where "ps = (if length (process sipoc) > 0 then process sipoc else [''New Task''])"
    define b0 where "b0 = \<lparr> bl_nodes = [sipocNode ''StartEvent_SIPOC'' START
          (case inputs sipoc of [] \<Rightarrow> ''Start'' | i # _ \<Rightarrow> ''Input: '' @ i) 150],
        bl_edges = [], bl_x = 150 + 180, bl_prevId = ''StartEvent_SIPOC'', bl_calls = 0 \<rparr>"
    have beq: "convertSipocToBpmn u sipoc =
        \<lparr> pm_nodes = bl_nodes (fold (bpmnLoopBody u) ps b0)
            @ [sipocNode ''EndEvent_SIPOC'' END
                 (case outputs sipoc of [] \<Rightarrow> ''End'' | out # _ \<Rightarrow> ''Output: '' @ out)
                 (bl_x (fold (bpmnLoopBody u) ps b0))],
          pm_edges = bl_edges (fold (bpmnLoopBody u) ps b0)
            @ [sipocEdge (bl_prevId (fold (bpmnLoopBody u) ps b0)) ''EndEvent_SIPOC''] \<rparr>" for u
      unfolding convertSipocToBpmn_def Let_def ps_def b0_def by simp
    have len: "length ps = max 1 (length (process sipoc))"
      by (cases "process sipoc") (simp_all add: ps_def)
    have "fold (bpmnLoopBody u1) ps b0 = fold (bpmnLoopBody u2) ps b0"
      using a by (intro bpmnLoop_agree) (simp add: len b0_def)
    then show ?thesis
      by (simp add: beq)
  qed
  have agreeV: "convertSipocToVsm u1 sipoc = convertSipocToVsm u2 sipoc"
    if a: "\<forall>k. k < 2 * max 1 (length (process sipoc)) + 4 \<longrightarrow> u1 k = u2 k"
  proof -
    define qs where "qs = (if length (process sipoc) > 0 then process sipoc
        else [''Process Step 1''])"
    define v0 where "v0 = (\<lambda>u::nat \<Rightarrow> string.
        \<lparr> vl_steps = [mkStep (u 0) (firstOr (suppliers sipoc) ''Supplier'') Supplier 100 100,
                      mkStep (u 1) ''Production Control'' ProductionControl 450 100],
          vl_connectors = [], vl_x = 100, vl_prevProcessId = None, vl_calls = 2 \<rparr>)"
    define F where "F = (\<lambda>(u::nat \<Rightarrow> string) (st::VsmLoop).
        \<lparr> vsm_steps = vl_steps st
            @ [mkStep (u (vl_calls st)) (firstOr (customers sipoc) ''Customer'') Customer
                 (max (vl_x st) 800) 100],
          vsm_connectors = vl_connectors st @
            (case vl_prevProcessId st of
               Some prev \<Rightarrow>
                 if prev \<noteq> [] then
                   [\<lparr> vc_id = u (vl_calls st + 1), vc_source = prev,
                      vc_target = u (vl_calls st), vc_type = TransportArrow \<rparr>]
                 else []
             | None \<Rightarrow> []),
          totalLeadTime = 0, totalProcessTime = 0, efficiency = 0,
          customerDemand = Some 100, availableTime = Some 27000 \<rparr>)"
    have veq: "convertSipocToVsm u sipoc = F u (fold (vsmLoopBody u) qs (v0 u))" for u
      unfolding convertSipocToVsm_def Let_def qs_def v0_def F_def by simp
    have len: "length qs = max 1 (length (process sipoc))"
      by (cases "process sipoc") (simp_all add: qs_def)
    have u01: "u1 0 = u2 0" "u1 1 = u2 1"
      using a by simp_all
    have v0eq: "v0 u1 = v0 u2"
      unfolding v0_def u01 by simp
    define st where "st = fold (vsmLoopBody u2) qs (v0 u2)"
    have "\<forall>k. k < vl_calls (v0 u2) + 2 * length qs \<longrightarrow> u1 k = u2 k"
      using a by (simp add: len v0_def)
    from vsmLoop_agree [OF this]
    have f: "fold (vsmLoopBody u1) qs (v0 u2) = st" and c: "vl_calls st \<le> 2 + 2 * length qs"
      by (simp_all add: st_def v0_def)
    have uc: "u1 (vl_calls st) = u2 (vl_calls st)" "u1 (vl_calls st + 1) = u2 (vl_calls st + 1)"
      using a c by (simp_all add: len)
    have "F u1 st = F u2 st"
      unfolding F_def uc by simp
    then show ?thesis
      by (simp add: veq v0eq f st_def)
  qed
  from shapes agreeB agreeV
    flowChain_convertSipocToBpmn [of u1 sipoc] flowChain_convertSipocToBpmn [of u2 sipoc]
    connectorChain_convertSipocToVsm [OF ne1, of sipoc]
    connectorChain_convertSipocToVsm [OF ne2, of sipoc]
    flowChain_convertVsmToBpmn [of vsm]
  show ?thesis
    by blast
qed

theorem lifts_equal_up_to_ids_witness:
  "(\<forall>k. uuidA k \<noteq> [] \<and> uuidB k \<noteq> []) \<and> (\<forall>k. uuidA k \<noteq> [] \<and> uuidA2 k \<noteq> [])
   \<and> map uuidA [0 ..< 2 * max 1 (length (process exSipoc)) + 4]
       = map uuidA2 [0 ..< 2 * max 1 (length (process exSipoc)) + 4]
   \<and> uuidA 16 \<noteq> uuidA2 16
   \<and> convertSipocToVsm uuidA exSipoc = convertSipocToVsm uuidA2 exSipoc
   \<and> convertSipocToBpmn uuidA exSipoc = convertSipocToBpmn uuidA2 exSipoc
   \<and> map nodeShapeOf (pm_nodes (convertSipocToBpmn uuidA exSipoc))
       = map nodeShapeOf (pm_nodes (convertSipocToBpmn uuidB exSipoc))
   \<and> map stepShapeOf (vsm_steps (convertSipocToVsm uuidA exSipoc))
       = map stepShapeOf (vsm_steps (convertSipocToVsm uuidB exSipoc))
   \<and> map vc_type (vsm_connectors (convertSipocToVsm uuidA exSipoc))
       = map vc_type (vsm_connectors (convertSipocToVsm uuidB exSipoc))
   \<and> flowChain (convertSipocToBpmn uuidB exSipoc)
   \<and> connectorChain (convertSipocToVsm uuidB exSipoc)
   \<and> map edgeEnds (pm_edges (convertSipocToBpmn uuidB exSipoc))
       = [(''StartEvent_SIPOC'', ''Task_b-4e5''), (''Task_b-4e5'', ''Task_b2-4e''),
          (''Task_b2-4e'', ''Task_b22-4''), (''Task_b22-4'', ''EndEvent_SIPOC'')]
   \<and> map pn_label (pm_nodes (convertSipocToBpmn uuidA exSipoc))
       = [''Input: Order'', ''Receive Order'', ''Pack'', ''Ship'', ''Output: Shipment'']"
proof -
  have u: "\<forall>k. uuidA k \<noteq> [] \<and> uuidB k \<noteq> []"
    by (simp add: uuidA_def uuidB_def)
  have u2: "\<forall>k. uuidA k \<noteq> [] \<and> uuidA2 k \<noteq> []"
    by (simp add: uuidA_def uuidB_def uuidA2_def)
  have ag: "\<forall>k. k < 2 * max 1 (length (process exSipoc)) + 4 \<longrightarrow> uuidA k = uuidA2 k"
    by (simp add: uuidA2_def exSipoc_def)
  then have ag': "\<forall>k. k < max 1 (length (process exSipoc)) \<longrightarrow> uuidA k = uuidA2 k"
    by (simp add: uuidA2_def exSipoc_def)
  have d: "uuidA 16 \<noteq> uuidA2 16"
    by (simp add: uuidA_def uuidB_def uuidA2_def)
  have l: "map pn_label (pm_nodes (convertSipocToBpmn uuidA exSipoc))
       = [''Input: Order'', ''Receive Order'', ''Pack'', ''Ship'', ''Output: Shipment'']"
    by (simp add: convertSipocToBpmn_def exSipoc_def Let_def bpmnLoopBody_sel sipocNode_def)
  have ids: "map pn_id (pm_nodes (convertSipocToBpmn uuidB exSipoc))
       = [''StartEvent_SIPOC'', ''Task_b-4e5'', ''Task_b2-4e'', ''Task_b22-4'', ''EndEvent_SIPOC'']"
    by (simp add: convertSipocToBpmn_def exSipoc_def Let_def bpmnLoopBody_sel sipocNode_def
        uuidB_def)
  note h1 = lifts_equal_up_to_ids [OF u, of exSipoc exVsm]
  note h2 = lifts_equal_up_to_ids [OF u2, of exSipoc exVsm]
  from h2 ag ag' have eq: "convertSipocToVsm uuidA exSipoc = convertSipocToVsm uuidA2 exSipoc"
    "convertSipocToBpmn uuidA exSipoc = convertSipocToBpmn uuidA2 exSipoc"
    by blast+
  from h1 have fc: "flowChain (convertSipocToBpmn uuidB exSipoc)"
    and cc: "connectorChain (convertSipocToVsm uuidB exSipoc)"
    by blast+
  from fc have ends: "map edgeEnds (pm_edges (convertSipocToBpmn uuidB exSipoc))
       = [(''StartEvent_SIPOC'', ''Task_b-4e5''), (''Task_b-4e5'', ''Task_b2-4e''),
          (''Task_b2-4e'', ''Task_b22-4''), (''Task_b22-4'', ''EndEvent_SIPOC'')]"
    unfolding flowChain_def ids by (simp add: consecutive_def)
  have pre: "map uuidA [0 ..< 2 * max 1 (length (process exSipoc)) + 4]
       = map uuidA2 [0 ..< 2 * max 1 (length (process exSipoc)) + 4]"
    using ag by simp
  from h1 u u2 pre d eq fc cc ends l show ?thesis
    by blast
qed

subsection \<open>The Process Health score\<close>

lemma vsmMetrics_names:
  "m \<in> set (vsmMetrics data) \<Longrightarrow> md_name m \<in> {''Lead Time'', ''Flow Efficiency'', ''Takt Time''}"
  by (auto simp: vsmMetrics_def metric_def split: option.splits if_splits)

lemma mapMetrics_names:
  "m \<in> set (mapMetrics data) \<Longrightarrow> md_name m \<in> {''Designed Cycle Time'', ''Operating Cost''}"
  by (auto simp: mapMetrics_def metric_def Let_def split: option.splits if_splits)

lemma taktDivisor_nonzero: "taktDivisor takt \<noteq> 0"
  by (simp add: taktDivisor_def orNum_def)

lemma ratioDivisor_nonzero: "ratioDivisor cycle takt \<noteq> 0"
  by (simp add: ratioDivisor_def orNum_def)

lemma valueOr_nonzero: "d \<noteq> 0 \<Longrightarrow> valueOr metrics n d \<noteq> 0"
  by (simp add: valueOr_def orNum_def split: option.splits)

lemma health_example: "health 50 (317 / 100) 270 = 105"
  by (simp add: health_def ratioDivisor_def taktRatio_def taktDivisor_def orNum_def
      Math_round_def)

text \<open>
  Claim C10. Every Process Health entry of the derived metrics has a value of at most 100;
  the entry is present exactly through the branch that caps the rounded weighted formula
  (0.4 times efficiency plus 0.6 times 100 over the takt ratio, the ratio clamped at 1.2)
  with \<open>Math.min(100, ...)\<close>, and the formula itself can exceed 100 (105 at efficiency
  50, cycle 3.17 and takt 270). Both divisors are never zero: a zero takt time and a zero
  takt ratio are each replaced by 1.
\<close>

theorem process_health_capped:
  "(\<forall>m \<in> set (calculateDynamicMetrics data).
       md_name m = ''Process Health'' \<longrightarrow> md_value m \<le> 100)
   \<and> (2 \<le> length (vsmMetrics data @ mapMetrics data) \<longrightarrow>
        hd (calculateDynamicMetrics data) =
          metric ''Process Health''
            (min 100 (health (valueOr (vsmMetrics data @ mapMetrics data) ''Flow Efficiency'' 50)
                             (valueOr (vsmMetrics data @ mapMetrics data) ''Designed Cycle Time'' 100)
                             (valueOr (vsmMetrics data @ mapMetrics data) ''Takt Time'' 100)))
            ''Score'')
   \<and> health eff cycle takt =
        Math_round (eff * (4 / 10) + 100 * (1 / ratioDivisor cycle takt) * (6 / 10))
   \<and> taktRatio cycle takt = min (12 / 10) (cycle * 60 / taktDivisor takt)
   \<and> taktDivisor takt \<noteq> 0 \<and> ratioDivisor cycle takt \<noteq> 0
   \<and> (takt = 0 \<longrightarrow> taktDivisor takt = 1)
   \<and> (taktRatio cycle takt = 0 \<longrightarrow> ratioDivisor cycle takt = 1)
   \<and> health 50 (317 / 100) 270 > 100"
proof -
  have cap: "\<forall>m \<in> set (calculateDynamicMetrics data).
       md_name m = ''Process Health'' \<longrightarrow> md_value m \<le> 100"
  proof (intro ballI impI)
    fix m
    assume m: "m \<in> set (calculateDynamicMetrics data)" and n: "md_name m = ''Process Health''"
    have "m \<notin> set (vsmMetrics data)" "m \<notin> set (mapMetrics data)"
      using n vsmMetrics_names [of m data] mapMetrics_names [of m data] by auto
    with m have "\<exists>h. m = metric ''Process Health'' (min 100 h) ''Score''"
      by (auto simp: calculateDynamicMetrics_def Let_def split: if_splits)
    then show "md_value m \<le> 100"
      by (auto simp: metric_def)
  qed
  have hd: "2 \<le> length (vsmMetrics data @ mapMetrics data) \<longrightarrow>
        hd (calculateDynamicMetrics data) =
          metric ''Process Health''
            (min 100 (health (valueOr (vsmMetrics data @ mapMetrics data) ''Flow Efficiency'' 50)
                             (valueOr (vsmMetrics data @ mapMetrics data) ''Designed Cycle Time'' 100)
                             (valueOr (vsmMetrics data @ mapMetrics data) ''Takt Time'' 100)))
            ''Score''"
    by (simp add: calculateDynamicMetrics_def Let_def)
  have "health 50 (317 / 100) 270 > 100"
    by (simp add: health_example)
  moreover have "takt = 0 \<longrightarrow> taktDivisor takt = 1"
    "taktRatio cycle takt = 0 \<longrightarrow> ratioDivisor cycle takt = 1"
    by (simp_all add: taktDivisor_def ratioDivisor_def orNum_def)
  moreover have "health eff cycle takt =
        Math_round (eff * (4 / 10) + 100 * (1 / ratioDivisor cycle takt) * (6 / 10))"
    "taktRatio cycle takt = min (12 / 10) (cycle * 60 / taktDivisor takt)"
    by (simp_all add: health_def taktRatio_def)
  ultimately show ?thesis
    using cap hd taktDivisor_nonzero [of takt] ratioDivisor_nonzero [of cycle takt]
    by blast
qed

lemma exProject_metrics:
  "vsmMetrics exProject = [metric ''Lead Time'' 0 ''days'', metric ''Flow Efficiency'' 0 ''%'',
      metric ''Takt Time'' 270 ''s'']"
  by (simp add: vsmMetrics_def exProject_def exVsm_def orNum_def Math_round_def)

lemma exProject_mapMetrics:
  "mapMetrics exProject = [metric ''Designed Cycle Time'' (317 / 100) ''min'',
      metric ''Operating Cost'' 0 ''USD'']"
proof -
  have ps: "processSteps exVsm = [vsm_steps exVsm ! 2, vsm_steps exVsm ! 0]"
    by (simp add: exVsm_def processSteps_def)
  have c: "cycleTimeMin (vsm_steps exVsm ! 2) = 3 / 2" "cycleTimeMin (vsm_steps exVsm ! 0) = 167 / 100"
    by (simp_all add: exVsm_def cycleTimeMin_def toFixed2_examples)
  show ?thesis
    by (simp add: mapMetrics_def exProject_def convertVsmToBpmn_closed ps taskNode_def c
        metricOr_def orElse_def startNode_def endNode_def zeroMetrics_def)
qed

theorem process_health_capped_witness:
  "hd (calculateDynamicMetrics exProject) \<in> set (calculateDynamicMetrics exProject)
   \<and> md_name (hd (calculateDynamicMetrics exProject)) = ''Process Health''
   \<and> md_value (hd (calculateDynamicMetrics exProject)) = 100
   \<and> 2 \<le> length (vsmMetrics exProject @ mapMetrics exProject)
   \<and> health 50 (317 / 100) 270 = 105
   \<and> taktRatio 0 0 = 0 \<and> taktDivisor 0 = 1 \<and> ratioDivisor 0 0 = 1"
proof -
  note h = process_health_capped [of exProject 50 0 0]
  have len: "2 \<le> length (vsmMetrics exProject @ mapMetrics exProject)"
    by (simp add: exProject_metrics exProject_mapMetrics)
  have vals: "valueOr (vsmMetrics exProject @ mapMetrics exProject) ''Flow Efficiency'' 50 = 50"
    "valueOr (vsmMetrics exProject @ mapMetrics exProject) ''Designed Cycle Time'' 100 = 317 / 100"
    "valueOr (vsmMetrics exProject @ mapMetrics exProject) ''Takt Time'' 100 = 270"
    by (simp_all add: exProject_metrics exProject_mapMetrics valueOr_def metric_def orNum_def)
  from h len have "hd (calculateDynamicMetrics exProject) =
      metric ''Process Health''
        (min 100 (health (valueOr (vsmMetrics exProject @ mapMetrics exProject) ''Flow Efficiency'' 50)
                         (valueOr (vsmMetrics exProject @ mapMetrics exProject) ''Designed Cycle Time'' 100)
                         (valueOr (vsmMetrics exProject @ mapMetrics exProject) ''Takt Time'' 100)))
        ''Score''"
    by blast
  then have hd: "hd (calculateDynamicMetrics exProject) = metric ''Process Health'' 100 ''Score''"
    unfolding vals health_example by simp
  have ne: "calculateDynamicMetrics exProject \<noteq> []"
    using len by (simp add: calculateDynamicMetrics_def Let_def)
  then have mem: "hd (calculateDynamicMetrics exProject) \<in> set (calculateDynamicMetrics exProject)"
    by simp
  have nm: "md_name (hd (calculateDynamicMetrics exProject)) = ''Process Health''"
    by (simp add: hd metric_def)
  from h mem nm have "md_value (hd (calculateDynamicMetrics exProject)) \<le> 100"
    by blast
  moreover have "md_value (hd (calculateDynamicMetrics exProject)) = 100"
    by (simp add: hd metric_def)
  moreover have z: "taktRatio 0 0 = 0"
    by (simp add: taktRatio_def)
  moreover from h have "taktDivisor 0 = 1"
    by blast
  moreover from h z have "ratioDivisor 0 0 = 1"
    by blast
  ultimately show ?thesis
    using mem nm len health_example by blast
qed

end
